theory Spec2Isabelle
  imports Main
begin

section \<open>Go runtime conventions\<close>

text \<open>
  Go's \<open>%\<close> truncates towards zero and panics on a zero divisor; indexing a slice out
  of range panics. A panic is the value \<open>None\<close>.
\<close>

definition go_rem :: "int \<Rightarrow> int \<Rightarrow> int option" where
  "go_rem a b = (if b = 0 then None else Some (sgn a * (\<bar>a\<bar> mod \<bar>b\<bar>)))"

definition go_index :: "'a list \<Rightarrow> int \<Rightarrow> 'a option" where
  "go_index xs i = (if 0 \<le> i \<and> i < int (length xs) then Some (xs ! nat i) else None)"

definition go_update :: "'a list \<Rightarrow> int \<Rightarrow> 'a \<Rightarrow> 'a list option" where
  "go_update xs i v = (if 0 \<le> i \<and> i < int (length xs) then Some (xs[nat i := v]) else None)"

text \<open>The ring-buffer accesses \<open>xs[i % len(xs)]\<close> and \<open>xs[i % len(xs)] = v\<close>.\<close>

definition slot_at :: "'a list \<Rightarrow> int \<Rightarrow> 'a option" where
  "slot_at xs i =
     (case go_rem i (int (length xs)) of None \<Rightarrow> None | Some j \<Rightarrow> go_index xs j)"

definition slot_update :: "'a list \<Rightarrow> int \<Rightarrow> 'a \<Rightarrow> 'a list option" where
  "slot_update xs i v =
     (case go_rem i (int (length xs)) of None \<Rightarrow> None | Some j \<Rightarrow> go_update xs j v)"

text \<open>
  \<open>time.Duration\<close> is a signed 64-bit count of nanoseconds; a product that leaves the
  range wraps around.
\<close>

definition wrap64 :: "int \<Rightarrow> int" where
  "wrap64 x = (x + 2 ^ 63) mod 2 ^ 64 - 2 ^ 63"

section \<open>service/rtc/rate.go: the rate monitor\<close>

text \<open>
  Clock readings (\<open>time.Time\<close>) are nanoseconds on one time line and \<open>Sub\<close> is their
  difference (\<open>Sub\<close> saturates at the ends of the 64-bit range, which readings less
  than 292 years apart do not reach). The injected clock \<open>now\<close> is an argument: each
  call of \<open>PushSample\<close> and of \<open>GetRate\<close> reads the clock once, and the reading is passed
  in. Go's \<open>int\<close> has 64 bits: the byte total that \<open>GetRate\<close> adds up and the product
  \<open>samplingSize * 2\<close> wrap around as in the source. The cursor is an unbounded
  integer: it counts the pushes and would need \<open>2^63\<close> of them to wrap.
  The mutex is not modelled: every method runs under it from start to end.
\<close>

record RateMonitor =
  samples :: "int list"
  timestamps :: "int list"
  samplesPtr :: int
  samplingSize :: int
  filled :: bool

definition NewRateMonitor :: "int \<Rightarrow> string + RateMonitor" where
  "NewRateMonitor samplingSize' =
     (if samplingSize' \<le> 0 then Inl ''invalid sampling size''
      else Inr \<lparr>samples = [], timestamps = [], samplesPtr = 0,
                samplingSize = samplingSize', filled = False\<rparr>)"

definition getSamplesDuration :: "RateMonitor \<Rightarrow> int option" where
  "getSamplesDuration m =
     (if length (timestamps m) = 0 then Some 0
      else
        case slot_at (timestamps m) (samplesPtr m - 1) of
          None \<Rightarrow> None
        | Some lastTS \<Rightarrow>
           (case slot_at (timestamps m) (samplesPtr m) of
              None \<Rightarrow> None
            | Some firstTS \<Rightarrow> Some (lastTS - firstTS)))"

text \<open>The two branches of \<open>PushSample\<close>: appending while filling, overwriting after.\<close>

definition push_append :: "RateMonitor \<Rightarrow> int \<Rightarrow> int \<Rightarrow> RateMonitor option" where
  "push_append m size' now =
     (let m1 = m\<lparr>samples := samples m @ [size'],
                  timestamps := timestamps m @ [now],
                  samplesPtr := samplesPtr m + 1\<rparr>
      in case getSamplesDuration m1 of
           None \<Rightarrow> None
         | Some d \<Rightarrow>
             Some (if d \<ge> wrap64 (samplingSize m1 * 2) then m1\<lparr>filled := True\<rparr> else m1))"

definition push_overwrite :: "RateMonitor \<Rightarrow> int \<Rightarrow> int \<Rightarrow> RateMonitor option" where
  "push_overwrite m size' now =
     (case slot_update (samples m) (samplesPtr m) size' of
        None \<Rightarrow> None
      | Some samples' \<Rightarrow>
         (case slot_update (timestamps m) (samplesPtr m) now of
            None \<Rightarrow> None
          | Some timestamps' \<Rightarrow>
              Some (m\<lparr>samples := samples', timestamps := timestamps',
                       samplesPtr := samplesPtr m + 1\<rparr>)))"

definition PushSample :: "RateMonitor \<Rightarrow> int \<Rightarrow> int \<Rightarrow> RateMonitor option" where
  "PushSample m size' now =
     (if filled m then push_overwrite m size' now
      else
        case getSamplesDuration m of
          None \<Rightarrow> None
        | Some d \<Rightarrow>
            if d < wrap64 (samplingSize m * 2) then push_append m size' now
            else push_overwrite m size' now)"

text \<open>
  The loop of \<open>GetRate\<close>: \<open>i\<close> runs from \<open>samplesPtr - 1\<close> down to
  \<open>samplesPtr - len(samples)\<close> and stops early once the span reaches the window;
  \<open>totalBytes += ...\<close> is an addition of 64-bit integers.
\<close>

function GetRate_loop :: "RateMonitor \<Rightarrow> int \<Rightarrow> int \<Rightarrow> int \<Rightarrow> int \<Rightarrow> (int \<times> int) option" where
  "GetRate_loop m now i totalBytes samplesDuration =
     (if i \<ge> samplesPtr m - int (length (samples m)) then
        case slot_at (timestamps m) i of
          None \<Rightarrow> None
        | Some ts \<Rightarrow>
           (case slot_at (samples m) i of
              None \<Rightarrow> None
            | Some sz \<Rightarrow>
                if now - ts \<ge> samplingSize m then Some (wrap64 (totalBytes + sz), now - ts)
                else GetRate_loop m now (i - 1) (wrap64 (totalBytes + sz)) (now - ts))
      else Some (totalBytes, samplesDuration))"
  by pat_completeness auto
termination
  by (relation "measure (\<lambda>(m, now, i, totalBytes, samplesDuration).
        nat (i + 1 - (samplesPtr m - int (length (samples m)))))") auto

text \<open>
  The bit rate is computed in float64:
  \<open>int(math.Round(float64(totalBytes) / samplesDuration.Seconds() * 8))\<close>.
  Floating-point rounding and the conversion of an infinity or a NaN to \<open>int\<close> (which
  Go leaves to the implementation) are not modelled: the expression is the argument
  \<open>bitsPerSec\<close>, a function of the byte total and of the span in nanoseconds.
\<close>

definition GetRate :: "(int \<Rightarrow> int \<Rightarrow> int) \<Rightarrow> RateMonitor \<Rightarrow> int \<Rightarrow> (int \<times> int) option" where
  "GetRate bitsPerSec m now =
     (if \<not> filled m then Some (- 1, 0)
      else
        case GetRate_loop m now (samplesPtr m - 1) 0 0 of
          None \<Rightarrow> None
        | Some (totalBytes, samplesDuration) \<Rightarrow>
            Some (bitsPerSec totalBytes samplesDuration, samplesDuration))"

text \<open>
  An instance of the bit-rate expression in exact arithmetic, rounding half away from
  zero as \<open>math.Round\<close> does; on a zero span, where the float64 quotient is an infinity
  or a NaN, it takes the smallest 64-bit integer.
\<close>

definition bitsPerSec_exact :: "int \<Rightarrow> int \<Rightarrow> int" where
  "bitsPerSec_exact totalBytes samplesDuration =
     (if samplesDuration = 0 then - (2 ^ 63)
      else
        let num = totalBytes * 8 * 1000000000;
            q = (2 * \<bar>num\<bar> + \<bar>samplesDuration\<bar>) div (2 * \<bar>samplesDuration\<bar>)
        in sgn num * sgn samplesDuration * q)"

text \<open>A run of pushes: each element is the sample size and the clock reading of one call.\<close>

fun pushes :: "RateMonitor \<Rightarrow> (int \<times> int) list \<Rightarrow> RateMonitor option" where
  "pushes m [] = Some m"
| "pushes m ((size', now) # ps) =
     (case PushSample m size' now of None \<Rightarrow> None | Some m' \<Rightarrow> pushes m' ps)"


declare GetRate_loop.simps [simp del]

subsection \<open>Abstraction of the ring buffer\<close>

text \<open>
  The stored samples in push order, oldest first: the pairs (size, timestamp) read
  around the ring from the cursor \<open>samplesPtr mod len\<close>.
\<close>

definition stored :: "RateMonitor \<Rightarrow> (int \<times> int) list" where
  "stored m = rotate (nat (samplesPtr m)) (zip (samples m) (timestamps m))"

text \<open>
  The loop of \<open>GetRate\<close> on a list of samples, newest first: it adds up sizes in
  64 bits and stops at the first sample whose age reaches the window.
\<close>

fun walk :: "int \<Rightarrow> int \<Rightarrow> (int \<times> int) list \<Rightarrow> int \<Rightarrow> int \<Rightarrow> int \<times> int" where
  "walk now W [] tot dur = (tot, dur)"
| "walk now W ((sz, ts) # xs) tot dur =
     (if now - ts \<ge> W then (wrap64 (tot + sz), now - ts)
      else walk now W xs (wrap64 (tot + sz)) (now - ts))"

text \<open>
  The invariant of a monitor with window \<open>W\<close> after the pushes \<open>ps\<close>: the cursor counts
  the pushes, the ring holds the most recent ones in push order, all of them until the
  monitor is filled, and it is filled once some push lies \<open>2 * W\<close> after the first.
\<close>

definition rm_inv :: "int \<Rightarrow> (int \<times> int) list \<Rightarrow> RateMonitor \<Rightarrow> bool" where
  "rm_inv W ps m \<longleftrightarrow>
     samplingSize m = W \<and> samplesPtr m = int (length ps) \<and>
     length (samples m) = length (timestamps m) \<and>
     length (timestamps m) \<le> length ps \<and>
     (ps \<noteq> [] \<longrightarrow> timestamps m \<noteq> []) \<and>
     stored m = drop (length ps - length (timestamps m)) ps \<and>
     (\<not> filled m \<longrightarrow> length (timestamps m) = length ps) \<and>
     (filled m \<longleftrightarrow> (\<exists>k<length ps. snd (ps ! k) - snd (ps ! 0) \<ge> 2 * W))"

section \<open>service/store/bitcask.go: the credential store\<close>

text \<open>
  The database \<open>bitcask.Bitcask\<close> is an external library. It is modelled as a finite map
  from keys to values. A call of the library may also fail for a reason of its own (an
  I/O fault, a size limit): that outcome is an argument of the call, \<open>None\<close> when the
  library call goes through and \<open>Some e\<close> when the library reports the error \<open>e\<close>.
\<close>

type_synonym bitcask = "string \<rightharpoonup> string"

type_synonym db_fault = "string option"

datatype db_error = ErrKeyNotFound | DbFault string

definition db_Get :: "db_fault \<Rightarrow> bitcask \<Rightarrow> string \<Rightarrow> db_error + string" where
  "db_Get io db key =
     (case io of
        Some e \<Rightarrow> Inl (DbFault e)
      | None \<Rightarrow> (case db key of None \<Rightarrow> Inl ErrKeyNotFound | Some v \<Rightarrow> Inr v))"

definition db_Put :: "db_fault \<Rightarrow> bitcask \<Rightarrow> string \<Rightarrow> string \<Rightarrow> db_error option \<times> bitcask" where
  "db_Put io db key val =
     (case io of Some e \<Rightarrow> (Some (DbFault e), db) | None \<Rightarrow> (None, db(key \<mapsto> val)))"

definition db_Delete :: "db_fault \<Rightarrow> bitcask \<Rightarrow> string \<Rightarrow> db_error option \<times> bitcask" where
  "db_Delete io db key =
     (case io of Some e \<Rightarrow> (Some (DbFault e), db) | None \<Rightarrow> (None, db(key := None)))"

text \<open>
  The errors of the store: the sentinels \<open>ErrEmptyKey\<close> and \<open>ErrNotFound\<close>, and an error
  of the library wrapped with the message of the failing operation.
\<close>

datatype store_error = ErrEmptyKey | ErrNotFound | ErrWrapped string db_error

record bitcaskStore =
  db :: bitcask

definition store_Set :: "db_fault \<Rightarrow> bitcaskStore \<Rightarrow> string \<Rightarrow> string \<Rightarrow> store_error option \<times> bitcaskStore" where
  "store_Set io s key val =
     (if key = [] then (Some ErrEmptyKey, s)
      else
        case db_Put io (db s) key val of
          (Some err, db') \<Rightarrow> (Some (ErrWrapped ''failed to set key'' err), s\<lparr>db := db'\<rparr>)
        | (None, db') \<Rightarrow> (None, s\<lparr>db := db'\<rparr>))"

definition store_Get :: "db_fault \<Rightarrow> bitcaskStore \<Rightarrow> string \<Rightarrow> store_error + string" where
  "store_Get io s key =
     (if key = [] then Inl ErrEmptyKey
      else
        case db_Get io (db s) key of
          Inl ErrKeyNotFound \<Rightarrow> Inl ErrNotFound
        | Inl err \<Rightarrow> Inl (ErrWrapped ''failed to get key'' err)
        | Inr val \<Rightarrow> Inr val)"

definition store_Delete :: "db_fault \<Rightarrow> bitcaskStore \<Rightarrow> string \<Rightarrow> store_error option \<times> bitcaskStore" where
  "store_Delete io s key =
     (if key = [] then (Some ErrEmptyKey, s)
      else
        case db_Delete io (db s) key of
          (Some err, db') \<Rightarrow> (Some (ErrWrapped ''failed to delete key'' err), s\<lparr>db := db'\<rparr>)
        | (None, db') \<Rightarrow> (None, s\<lparr>db := db'\<rparr>))"

section \<open>service/auth/service.go: the authentication service\<close>

text \<open>
  An error of the service carries the error it wraps with \<open>%w\<close>, if any, so that
  \<open>errors.Is\<close> can be answered.
\<close>

datatype auth_error =
    InvalidStore
  | AuthenticationFailedStore store_error
  | AuthenticationFailed
  | AlreadyRegistered
  | RegistrationFailedStore store_error
  | RegistrationFailed string
  | UnregisterFailedStore store_error

fun wrapped_store_error :: "auth_error \<Rightarrow> store_error option" where
  "wrapped_store_error (AuthenticationFailedStore e) = Some e"
| "wrapped_store_error (RegistrationFailedStore e) = Some e"
| "wrapped_store_error (UnregisterFailedStore e) = Some e"
| "wrapped_store_error _ = None"

text \<open>\<open>errors.Is(err, store.ErrNotFound)\<close>.\<close>

definition is_ErrNotFound :: "auth_error \<Rightarrow> bool" where
  "is_ErrNotFound err \<longleftrightarrow> wrapped_store_error err = Some ErrNotFound"

record Service =
  store :: bitcaskStore

definition NewService :: "bitcaskStore option \<Rightarrow> auth_error + Service" where
  "NewService store' =
     (case store' of None \<Rightarrow> Inl InvalidStore | Some st \<Rightarrow> Inr \<lparr>store = st\<rparr>)"

text \<open>
  The helpers \<open>newRandomString\<close>, \<open>hashKey\<close> and \<open>compareKeyHash\<close> are not in these
  sources. The outcome of \<open>newRandomString(DefaultKeyLen)\<close> is the argument \<open>rnd\<close>
  (\<open>Inl\<close> an error, \<open>Inr\<close> the key), \<open>hashKey\<close> is a function that returns an error or
  the hash, and \<open>compareKeyHash hash key\<close> is true when the helper returns no error.
\<close>

definition Authenticate ::
  "(string \<Rightarrow> string \<Rightarrow> bool) \<Rightarrow> db_fault \<Rightarrow> Service \<Rightarrow> string \<Rightarrow> string \<Rightarrow> auth_error option" where
  "Authenticate compareKeyHash io s id' authKey =
     (case store_Get io (store s) id' of
        Inl err \<Rightarrow> Some (AuthenticationFailedStore err)
      | Inr hash \<Rightarrow> if \<not> compareKeyHash hash authKey then Some AuthenticationFailed else None)"

definition Register ::
  "string + string \<Rightarrow> (string \<Rightarrow> string + string) \<Rightarrow> db_fault \<Rightarrow> db_fault \<Rightarrow>
   Service \<Rightarrow> string \<Rightarrow> (auth_error + string) \<times> Service" where
  "Register rnd hashKey io_get io_set s id' =
     (case store_Get io_get (store s) id' of
        Inr _ \<Rightarrow> (Inl AlreadyRegistered, s)
      | Inl err \<Rightarrow>
          if err \<noteq> ErrNotFound then (Inl (RegistrationFailedStore err), s)
          else
            (case rnd of
               Inl e \<Rightarrow> (Inl (RegistrationFailed e), s)
             | Inr authKey \<Rightarrow>
                (case hashKey authKey of
                   Inl e \<Rightarrow> (Inl (RegistrationFailed e), s)
                 | Inr hash \<Rightarrow>
                    (case store_Set io_set (store s) id' hash of
                       (Some err, st') \<Rightarrow> (Inl (RegistrationFailedStore err), s\<lparr>store := st'\<rparr>)
                     | (None, st') \<Rightarrow> (Inr authKey, s\<lparr>store := st'\<rparr>)))))"

definition Unregister ::
  "db_fault \<Rightarrow> db_fault \<Rightarrow> Service \<Rightarrow> string \<Rightarrow> auth_error option \<times> Service" where
  "Unregister io_get io_del s id' =
     (case store_Get io_get (store s) id' of
        Inl err \<Rightarrow> (Some (UnregisterFailedStore err), s)
      | Inr _ \<Rightarrow>
         (case store_Delete io_del (store s) id' of
            (Some err, st') \<Rightarrow> (Some (UnregisterFailedStore err), s\<lparr>store := st'\<rparr>)
          | (None, st') \<Rightarrow> (None, s\<lparr>store := st'\<rparr>)))"

section \<open>Channels, messages, logging and metrics\<close>

text \<open>
  A buffered Go channel: the queued values, the capacity and whether the channel has
  been closed. A send inside \<open>select\<close> with a \<open>default\<close> case never waits: it queues the
  value when the buffer has room, takes the \<open>default\<close> case when the buffer is full, and
  panics on a closed channel.
\<close>

record 'a chan =
  buf :: "'a list"
  capacity :: nat
  is_closed :: bool

datatype 'a send_result = Sent "'a chan" | WouldBlock | SendPanic

definition select_send :: "'a chan \<Rightarrow> 'a \<Rightarrow> 'a send_result" where
  "select_send ch v =
     (if is_closed ch then SendPanic
      else if length (buf ch) < capacity ch then Sent (ch\<lparr>buf := buf ch @ [v]\<rparr>)
      else WouldBlock)"

datatype MessageType =
    ICEMessage | SDPMessage | ScreenOnMessage | ScreenOffMessage
  | MuteMessage | UnmuteMessage | VoiceOnMessage | VoiceOffMessage
  | UnknownMessage int

record Message =
  SessionID :: string
  GroupID :: string
  CallID :: string
  Type :: MessageType
  Data :: string

text \<open>
  Modelled from the spec: \<open>Message.IsValid\<close> is not in these sources. The specification
  says that it requires non-empty identifiers and a known type.
\<close>

definition Message_IsValid :: "Message \<Rightarrow> string option" where
  "Message_IsValid m =
     (if SessionID m = [] \<or> GroupID m = [] \<or> CallID m = [] then Some ''invalid identifier''
      else case Type m of UnknownMessage _ \<Rightarrow> Some ''invalid Type value'' | _ \<Rightarrow> None)"

record SessionConfig =
  cfg_GroupID :: string
  cfg_CallID :: string
  cfg_UserID :: string
  cfg_SessionID :: string

text \<open>
  The logger is an external interface. A log is the list of entries written so far:
  the level and the message (the structured fields are left out).
\<close>

datatype log_level = Debug | Warn | Error

type_synonym log_entry = "log_level \<times> string"

text \<open>
  Modelled from the spec: the metrics sink is an external counter interface; only the
  count of RTP tracks per group, direction and kind is kept here.
\<close>

record Metrics =
  rtpTracks :: "string \<times> string \<times> string \<Rightarrow> int"

definition IncRTPTracks :: "Metrics \<Rightarrow> string \<Rightarrow> string \<Rightarrow> string \<Rightarrow> Metrics" where
  "IncRTPTracks m groupID direction trackType =
     m\<lparr>rtpTracks := (rtpTracks m)((groupID, direction, trackType) :=
          rtpTracks m (groupID, direction, trackType) + 1)\<rparr>"

definition DecRTPTracks :: "Metrics \<Rightarrow> string \<Rightarrow> string \<Rightarrow> string \<Rightarrow> Metrics" where
  "DecRTPTracks m groupID direction trackType =
     m\<lparr>rtpTracks := (rtpTracks m)((groupID, direction, trackType) :=
          rtpTracks m (groupID, direction, trackType) - 1)\<rparr>"

section \<open>The peer connection\<close>

text \<open>
  \<open>webrtc.PeerConnection\<close> is an external library. The model keeps what the session
  code reads: the signaling state and the senders with the track each one carries.
  A track or a sender is identified by a handle, standing for the Go pointer. Whether
  a call into the library succeeds is not decided here: each outcome is an input of
  the function that makes the call.
\<close>

datatype SignalingState = Stable | HaveLocalOffer | HaveRemoteOffer | Closed

datatype RTPCodecType = RTPCodecTypeUnknown | RTPCodecTypeAudio | RTPCodecTypeVideo

datatype SDPType = SDPTypeUnknown | SDPTypeOffer | SDPTypePranswer | SDPTypeAnswer | SDPTypeRollback

record SessionDescription =
  sdp_Type :: SDPType
  sdp_SDP :: string

record TrackLocal =
  track_handle :: nat
  track_ID :: string
  track_Kind :: RTPCodecType

record RTPSender =
  sender_handle :: nat
  sender_Track :: "TrackLocal option"

record PeerConnection =
  signalingState :: SignalingState
  senders :: "RTPSender list"

text \<open>
  Modelled from the spec: \<open>getTrackType\<close> is not in these sources; tracks are counted by
  kind, audio or video.
\<close>

definition getTrackType :: "RTPCodecType \<Rightarrow> string" where
  "getTrackType kind =
     (case kind of RTPCodecTypeAudio \<Rightarrow> ''audio'' | RTPCodecTypeVideo \<Rightarrow> ''video''
      | RTPCodecTypeUnknown \<Rightarrow> ''unknown'')"

section \<open>The session\<close>

text \<open>
  The fields of \<open>session\<close>. Left out: \<open>tracksCh\<close>, \<open>bwEstimator\<close>, \<open>closeCb\<close>, the logger,
  and the mutex; the back-reference \<open>call\<close> is the place of the session in its call.
  \<open>closeCh\<close> carries no values: only whether it has been closed matters.
\<close>

type_synonym vad_monitor = nat

record session =
  cfg :: SessionConfig
  rtcConn :: "PeerConnection option"
  iceInCh :: "string chan"
  sdpOfferInCh :: "SessionDescription chan"
  sdpAnswerInCh :: "SessionDescription chan"
  outVoiceTrack :: "TrackLocal option"
  outVoiceTrackEnabled :: bool
  screenStreamID :: string
  outScreenTracks :: "string \<rightharpoonup> TrackLocal"
  outScreenAudioTrack :: "TrackLocal option"
  remoteScreenTracks :: "string \<rightharpoonup> nat"
  screenRateMonitors :: "string \<rightharpoonup> RateMonitor"
  screenTrackSender :: "nat option"
  closeCh_closed :: bool
  vadMonitor :: "vad_monitor option"
  makingOffer :: bool

definition hasSignalingConflict :: "session \<Rightarrow> bool" where
  "hasSignalingConflict s =
     (case rtcConn s of
        None \<Rightarrow> False
      | Some pc \<Rightarrow> makingOffer s \<or> signalingState pc \<noteq> Stable)"

text \<open>
  Modelled from the spec: \<open>newMessage\<close> is not in these sources; the envelope carries
  the identifiers of the session, the type and the payload.
\<close>

definition newMessage :: "session \<Rightarrow> MessageType \<Rightarrow> string \<Rightarrow> Message" where
  "newMessage s typ data =
     \<lparr>SessionID = cfg_SessionID (cfg s), GroupID = cfg_GroupID (cfg s),
      CallID = cfg_CallID (cfg s), Type = typ, Data = data\<rparr>"

text \<open>
  What a method of the session touches besides the session: the metrics of its call,
  the log, and the outbound message channel it is given.
\<close>

record world =
  sess :: session
  metrics :: Metrics
  logs :: "log_entry list"
  sdpOutCh :: "Message chan"

definition wlog :: "log_level \<Rightarrow> string \<Rightarrow> world \<Rightarrow> world" where
  "wlog lvl msg w = w\<lparr>logs := logs w @ [(lvl, msg)]\<rparr>"

text \<open>
  The outcomes of the library calls of \<open>sendOffer\<close>: \<open>CreateOffer\<close>,
  \<open>SetLocalDescription\<close> and \<open>json.Marshal\<close>.
\<close>

record offer_env =
  CreateOffer_result :: "string + SessionDescription"
  SetLocalDescription_error :: "string option"
  Marshal_result :: "string + string"

text \<open>\<open>None\<close> is a panic: a nil peer connection, or a send on a closed channel.\<close>

definition sendOffer :: "offer_env \<Rightarrow> world \<Rightarrow> (string option \<times> world) option" where
  "sendOffer env w =
     (case rtcConn (sess w) of
        None \<Rightarrow> None
      | Some pc \<Rightarrow>
         (case CreateOffer_result env of
            Inl e \<Rightarrow> Some (Some (''failed to create offer: '' @ e), w)
          | Inr offer \<Rightarrow>
             (case SetLocalDescription_error env of
                Some e \<Rightarrow> Some (Some (''failed to set local description: '' @ e), w)
              | None \<Rightarrow>
                 (let w1 = w\<lparr>sess := (sess w)\<lparr>rtcConn := Some (pc\<lparr>signalingState := HaveLocalOffer\<rparr>)\<rparr>\<rparr>
                  in case Marshal_result env of
                       Inl e \<Rightarrow> Some (Some (''failed to marshal sdp: '' @ e), w1)
                     | Inr sdp \<Rightarrow>
                        (case select_send (sdpOutCh w1) (newMessage (sess w1) SDPMessage sdp) of
                           Sent ch \<Rightarrow> Some (None, w1\<lparr>sdpOutCh := ch\<rparr>)
                         | WouldBlock \<Rightarrow>
                             Some (Some ''failed to send SDP message: channel is full'', w1)
                         | SendPanic \<Rightarrow> None)))))"

text \<open>
  What ends the wait of \<open>addTrack\<close>: an answer received on \<open>sdpAnswerInCh\<close>, that
  channel found closed, the signaling timeout of ten seconds, or \<open>closeCh\<close> closed.
  Which one happens is an input; time is not modelled.
\<close>

datatype signal_event =
    AnswerReceived SessionDescription
  | AnswerChClosed
  | TimedOut
  | SessionClosed

record addTrack_env =
  AddTrack_result :: "string + nat"
  offer :: offer_env
  event :: signal_event
  SetRemoteDescription_error :: "string option"
  ReplaceTrack_error :: "string option"

definition set_sender_track :: "nat \<Rightarrow> TrackLocal option \<Rightarrow> PeerConnection \<Rightarrow> PeerConnection" where
  "set_sender_track h t pc =
     pc\<lparr>senders := map (\<lambda>snd'. if sender_handle snd' = h then snd'\<lparr>sender_Track := t\<rparr> else snd')
                        (senders pc)\<rparr>"

text \<open>
  The deferred clean-up of \<open>addTrack\<close>, registered once the track is attached: it runs
  when the function returns and does nothing unless an error is returned.
\<close>

definition addTrack_cleanup ::
  "addTrack_env \<Rightarrow> string option \<Rightarrow> nat \<Rightarrow> TrackLocal \<Rightarrow> world \<Rightarrow> world" where
  "addTrack_cleanup env errRet sender track w =
     (case errRet of
        None \<Rightarrow> w
      | Some _ \<Rightarrow>
         (case ReplaceTrack_error env of
            Some _ \<Rightarrow> wlog Error ''failed to replace track'' w
          | None \<Rightarrow>
              w\<lparr>sess := (sess w)\<lparr>rtcConn := map_option (set_sender_track sender None) (rtcConn (sess w))\<rparr>,
                metrics := DecRTPTracks (metrics w) (cfg_GroupID (cfg (sess w))) ''out''
                             (getTrackType (track_Kind track))\<rparr>))"

text \<open>
  The part of \<open>addTrack\<close> after the track is attached: the offer is sent and the answer
  awaited. The reader of the sender's RTCP packets, started here in a goroutine of
  its own, is not modelled.
\<close>

definition addTrack_negotiate ::
  "addTrack_env \<Rightarrow> nat \<Rightarrow> TrackLocal \<Rightarrow> world \<Rightarrow> (string option \<times> world) option" where
  "addTrack_negotiate env sender track w =
     (case sendOffer (offer env) w of
        None \<Rightarrow> None
      | Some (Some e, w1) \<Rightarrow> Some (Some (''failed to send offer for track: '' @ e), w1)
      | Some (None, w1) \<Rightarrow>
         (case event env of
            AnswerReceived answer \<Rightarrow>
              (case SetRemoteDescription_error env of
                 Some e \<Rightarrow> Some (Some (''failed to set remote description for track: '' @ e), w1)
               | None \<Rightarrow>
                  (let w2 = w1\<lparr>sess := (sess w1)\<lparr>rtcConn :=
                              map_option (\<lambda>pc. pc\<lparr>signalingState := Stable\<rparr>) (rtcConn (sess w1))\<rparr>\<rparr>
                   in if track_Kind track = RTPCodecTypeVideo
                      then Some (None, w2\<lparr>sess := (sess w2)\<lparr>screenTrackSender := Some sender\<rparr>\<rparr>)
                      else Some (None, w2)))
          | AnswerChClosed \<Rightarrow> Some (None, w1)
          | TimedOut \<Rightarrow> Some (Some ''timed out signaling'', w1)
          | SessionClosed \<Rightarrow> Some (None, wlog Debug ''closeCh closed during signaling'' w1)))"

text \<open>
  \<open>addTrack\<close>. The first deferred function resets \<open>makingOffer\<close> on every return after
  the flag was set: it is \<open>ret\<close>, applied to each returned value; it runs after the
  deferred clean-up. \<open>None\<close> is the panic of a call on a nil peer connection or of a send
  on a closed channel.
\<close>

definition addTrack ::
  "addTrack_env \<Rightarrow> world \<Rightarrow> TrackLocal option \<Rightarrow> (string option \<times> world) option" where
  "addTrack env w track' =
     (case track' of
        None \<Rightarrow> Some (Some ''trying to add a nil track'', w)
      | Some track \<Rightarrow>
         (let w0 = wlog Debug ''addTrack'' w;
              w1 = w0\<lparr>sess := (sess w0)\<lparr>makingOffer := True\<rparr>\<rparr>;
              ret = (\<lambda>r. case r of
                       None \<Rightarrow> None
                     | Some (err, wr) \<Rightarrow> Some (err, wr\<lparr>sess := (sess wr)\<lparr>makingOffer := False\<rparr>\<rparr>))
          in case rtcConn (sess w1) of
               None \<Rightarrow> None
             | Some pc \<Rightarrow>
                 if \<exists>snd' \<in> set (senders pc). sender_Track snd' = Some track
                 then ret (Some (Some ''sender for track already exists'', w1))
                 else if track_Kind track = RTPCodecTypeVideo \<and> screenTrackSender (sess w1) \<noteq> None
                 then ret (Some (Some ''screen track sender is already set'', w1))
                 else
                   (case AddTrack_result env of
                      Inl e \<Rightarrow> ret (Some (Some (''failed to add track: '' @ e), w1))
                    | Inr sender \<Rightarrow>
                       (let pc' = pc\<lparr>senders := senders pc @
                                    [\<lparr>sender_handle = sender, sender_Track = Some track\<rparr>]\<rparr>;
                            w2 = w1\<lparr>sess := (sess w1)\<lparr>rtcConn := Some pc'\<rparr>,
                                   metrics := IncRTPTracks (metrics w1) (cfg_GroupID (cfg (sess w1)))
                                                ''out'' (getTrackType (track_Kind track))\<rparr>
                        in case addTrack_negotiate env sender track w2 of
                             None \<Rightarrow> None
                           | Some (errRet, w3) \<Rightarrow>
                               ret (Some (errRet, addTrack_cleanup env errRet sender track w3))))))"

text \<open>
  Two notions used to state what \<open>addTrack\<close> does: the offer goes out when every
  library call of \<open>sendOffer\<close> succeeds and the outbound channel has room; a track is
  attached when some sender of the peer connection carries it.
\<close>

definition offer_sent :: "offer_env \<Rightarrow> Message chan \<Rightarrow> bool" where
  "offer_sent env ch \<longleftrightarrow>
     (\<exists>sd. CreateOffer_result env = Inr sd) \<and> SetLocalDescription_error env = None \<and>
     (\<exists>sdp. Marshal_result env = Inr sdp) \<and> length (buf ch) < capacity ch"

definition is_answer :: "signal_event \<Rightarrow> bool" where
  "is_answer ev = (case ev of AnswerReceived _ \<Rightarrow> True | _ \<Rightarrow> False)"

definition track_attached :: "session \<Rightarrow> TrackLocal \<Rightarrow> bool" where
  "track_attached s track \<longleftrightarrow>
     (case rtcConn s of
        None \<Rightarrow> False
      | Some pc \<Rightarrow> \<exists>snd' \<in> set (senders pc). sender_Track snd' = Some track)"


text \<open>
  Values used to evaluate the definitions: an open channel with an empty buffer
  (\<open>make(chan T, n)\<close>), a session with a peer connection in the stable state and
  channels of the capacity \<open>signalChSize = 20\<close>, and a video track.
\<close>

definition make_chan :: "nat \<Rightarrow> 'a chan" where
  "make_chan n = \<lparr>buf = [], capacity = n, is_closed = False\<rparr>"

definition idle_session :: "string \<Rightarrow> session" where
  "idle_session sid =
     \<lparr>cfg = \<lparr>cfg_GroupID = ''g'', cfg_CallID = ''c'', cfg_UserID = ''u'', cfg_SessionID = sid\<rparr>,
      rtcConn = Some \<lparr>signalingState = Stable, senders = []\<rparr>,
      iceInCh = make_chan 20, sdpOfferInCh = make_chan 20, sdpAnswerInCh = make_chan 20,
      outVoiceTrack = None, outVoiceTrackEnabled = False, screenStreamID = [],
      outScreenTracks = Map.empty, outScreenAudioTrack = None,
      remoteScreenTracks = Map.empty, screenRateMonitors = Map.empty,
      screenTrackSender = None, closeCh_closed = False, vadMonitor = None,
      makingOffer = False\<rparr>"

definition idle_world :: world where
  "idle_world =
     \<lparr>sess = idle_session ''s'', metrics = \<lparr>rtpTracks = (\<lambda>_. 0)\<rparr>, logs = [],
      sdpOutCh = make_chan 256\<rparr>"

definition screen_track :: TrackLocal where
  "screen_track = \<lparr>track_handle = 1, track_ID = ''screen'', track_Kind = RTPCodecTypeVideo\<rparr>"

definition good_offer :: offer_env where
  "good_offer =
     \<lparr>CreateOffer_result = Inr \<lparr>sdp_Type = SDPTypeOffer, sdp_SDP = ''v=0''\<rparr>,
      SetLocalDescription_error = None, Marshal_result = Inr ''{}''\<rparr>"

section \<open>The server and its message pump\<close>

text \<open>
  A call owns its sessions by session id; the elected screen session, a pointer in the
  source, is the id of that session. A group owns its calls, the server its groups.
  Of the server the model keeps the groups, the index of session configurations, the
  inbound channel \<open>sendCh\<close>, the outbound channel \<open>receiveCh\<close> and the log.
\<close>

record call =
  call_id :: string
  call_sessions :: "string \<rightharpoonup> session"
  screenSession :: "string option"

record group =
  group_id :: string
  calls :: "string \<rightharpoonup> call"

record Server =
  groups :: "string \<rightharpoonup> group"
  sessions :: "string \<rightharpoonup> SessionConfig"
  sendCh :: "Message chan"
  receiveCh :: "Message chan"
  srv_log :: "log_entry list"

definition slog :: "log_level \<Rightarrow> string \<Rightarrow> Server \<Rightarrow> Server" where
  "slog lvl msg s = s\<lparr>srv_log := srv_log s @ [(lvl, msg)]\<rparr>"

text \<open>\<open>None\<close> is the panic of a send on a closed channel.\<close>

definition Send :: "Server \<Rightarrow> Message \<Rightarrow> (string option \<times> Server) option" where
  "Send s msg =
     (case select_send (sendCh s) msg of
        Sent ch \<Rightarrow> Some (None, s\<lparr>sendCh := ch\<rparr>)
      | WouldBlock \<Rightarrow> Some (Some ''failed to send rtc message, channel is full'', s)
      | SendPanic \<Rightarrow> None)"

text \<open>
  Modelled from the spec: \<open>getGroup\<close>, \<open>getCall\<close> and \<open>getSession\<close> are not in these
  sources; the specification describes the dispatch as a lookup group, then call, then
  session, by identifier.
\<close>

definition getGroup :: "Server \<Rightarrow> string \<Rightarrow> group option" where
  "getGroup s groupID = groups s groupID"

definition getCall :: "group \<Rightarrow> string \<Rightarrow> call option" where
  "getCall g callID = calls g callID"

definition getSession :: "call \<Rightarrow> string \<Rightarrow> session option" where
  "getSession c sessionID = call_sessions c sessionID"

text \<open>
  Modelled from the spec: \<open>call.setScreenSession\<close> is not in these sources. The
  specification says that at most one session holds the screen role and that, on
  \<open>ScreenOn\<close>, the sender session is recorded if the slot is empty.
\<close>

definition setScreenSession :: "call \<Rightarrow> string \<Rightarrow> bool \<times> call" where
  "setScreenSession c sessionID =
     (case screenSession c of
        None \<Rightarrow> (True, c\<lparr>screenSession := Some sessionID\<rparr>)
      | Some _ \<Rightarrow> (False, c))"

text \<open>
  What the pump takes from outside these sources: the two uses of \<open>json.Unmarshal\<close>
  (\<open>None\<close> when it returns an error), \<open>call.clearScreenState\<close> and the reset of the
  voice-activity monitor.
\<close>

record pump_env =
  unmarshal_sdp :: "string \<Rightarrow> SessionDescription option"
  unmarshal_screen :: "string \<Rightarrow> (string \<rightharpoonup> string) option"
  clearScreenState :: "call \<Rightarrow> string \<Rightarrow> call"
  vad_Reset :: "vad_monitor \<Rightarrow> vad_monitor"

text \<open>
  The session and the call are reached through pointers and changed in place; here
  the changed value is written back where the lookup found it.
\<close>

definition put_call :: "Server \<Rightarrow> SessionConfig \<Rightarrow> call \<Rightarrow> Server" where
  "put_call s c' cl =
     (case groups s (cfg_GroupID c') of
        None \<Rightarrow> s
      | Some g \<Rightarrow> s\<lparr>groups := (groups s)(cfg_GroupID c' \<mapsto> g\<lparr>calls := (calls g)(cfg_CallID c' \<mapsto> cl)\<rparr>)\<rparr>)"

definition put_session :: "Server \<Rightarrow> SessionConfig \<Rightarrow> call \<Rightarrow> session \<Rightarrow> Server" where
  "put_session s c' cl se =
     put_call s c' (cl\<lparr>call_sessions := (call_sessions cl)(cfg_SessionID c' \<mapsto> se)\<rparr>)"

text \<open>A Go map read: the zero value, the empty string, for a missing key.\<close>

definition map_get :: "(string \<rightharpoonup> string) \<Rightarrow> string \<Rightarrow> string" where
  "map_get m k = (case m k of None \<Rightarrow> [] | Some v \<Rightarrow> v)"

text \<open>
  One iteration of the loop of \<open>msgReader\<close>. It ends with \<open>continue\<close> or by reaching the
  end of the loop body (\<open>Continue\<close>), with \<open>return\<close> (\<open>Return\<close>), or in the panic of a send
  on a closed channel (\<open>Panic\<close>).
\<close>

datatype loop_ctl = Continue | Return | Panic

definition dispatch_sdp ::
  "pump_env \<Rightarrow> Server \<Rightarrow> SessionConfig \<Rightarrow> call \<Rightarrow> session \<Rightarrow> Message \<Rightarrow> loop_ctl \<times> Server" where
  "dispatch_sdp env s c' cl se msg =
     (case unmarshal_sdp env (Data msg) of
        None \<Rightarrow> (Continue, slog Error ''failed to unmarshal sdp'' s)
      | Some sdp \<Rightarrow>
         (let s1 = slog Debug ''signaling'' s
          in if sdp_Type sdp = SDPTypeOffer \<and> hasSignalingConflict se
             then (Continue, slog Debug ''signaling conflict detected, ignoring offer'' s1)
             else if sdp_Type sdp = SDPTypeOffer then
               (case select_send (sdpOfferInCh se) sdp of
                  Sent ch \<Rightarrow> (Continue, put_session s1 c' cl (se\<lparr>sdpOfferInCh := ch\<rparr>))
                | WouldBlock \<Rightarrow>
                    (Continue, slog Error ''failed to send sdp message: channel is full'' s1)
                | SendPanic \<Rightarrow> (Panic, s1))
             else if sdp_Type sdp = SDPTypeAnswer then
               (case select_send (sdpAnswerInCh se) sdp of
                  Sent ch \<Rightarrow> (Continue, put_session s1 c' cl (se\<lparr>sdpAnswerInCh := ch\<rparr>))
                | WouldBlock \<Rightarrow>
                    (Continue, slog Error ''failed to send sdp message: channel is full'' s1)
                | SendPanic \<Rightarrow> (Panic, s1))
             else (Return, slog Error ''unexpected sdp type'' s1)))"

definition dispatch_screen_on ::
  "pump_env \<Rightarrow> Server \<Rightarrow> SessionConfig \<Rightarrow> call \<Rightarrow> session \<Rightarrow> Message \<Rightarrow> loop_ctl \<times> Server" where
  "dispatch_screen_on env s c' cl se msg =
     (case unmarshal_screen env (Data msg) of
        None \<Rightarrow> (Continue, slog Error ''failed to unmarshal screen msg data'' s)
      | Some data \<Rightarrow>
         (let s1 = slog Debug ''received screen sharing stream ID'' s;
              se1 = se\<lparr>screenStreamID := map_get data ''screenStreamID''\<rparr>;
              cl1 = cl\<lparr>call_sessions := (call_sessions cl)(cfg_SessionID c' \<mapsto> se1)\<rparr>
          in case setScreenSession cl1 (cfg_SessionID c') of
               (True, cl2) \<Rightarrow> (Continue, put_call s1 c' cl2)
             | (False, cl2) \<Rightarrow>
                 (Continue, slog Error ''screen session should not be set'' (put_call s1 c' cl2))))"

definition dispatch_mute ::
  "pump_env \<Rightarrow> Server \<Rightarrow> SessionConfig \<Rightarrow> call \<Rightarrow> session \<Rightarrow> Message \<Rightarrow> loop_ctl \<times> Server" where
  "dispatch_mute env s c' cl se msg =
     (case outVoiceTrack se of
        None \<Rightarrow> (Continue, s)
      | Some track \<Rightarrow>
         (let (enabled, s1, se1) =
                (if Type msg = UnmuteMessage then (True, s, se)
                 else case vadMonitor se of
                        None \<Rightarrow> (False, s, se)
                      | Some v \<Rightarrow>
                          (False, slog Debug ''resetting vad monitor for session'' s,
                           se\<lparr>vadMonitor := Some (vad_Reset env v)\<rparr>));
              s2 = slog Debug ''setting voice track state'' s1
          in (Continue, put_session s2 c' cl (se1\<lparr>outVoiceTrackEnabled := enabled\<rparr>))))"

definition dispatch ::
  "pump_env \<Rightarrow> Server \<Rightarrow> SessionConfig \<Rightarrow> call \<Rightarrow> session \<Rightarrow> Message \<Rightarrow> loop_ctl \<times> Server" where
  "dispatch env s c' cl se msg =
     (case Type msg of
        ICEMessage \<Rightarrow>
          (case select_send (iceInCh se) (Data msg) of
             Sent ch \<Rightarrow> (Continue, put_session s c' cl (se\<lparr>iceInCh := ch\<rparr>))
           | WouldBlock \<Rightarrow> (Continue, slog Error ''failed to send sdp message: channel is full'' s)
           | SendPanic \<Rightarrow> (Panic, s))
      | SDPMessage \<Rightarrow> dispatch_sdp env s c' cl se msg
      | ScreenOnMessage \<Rightarrow> dispatch_screen_on env s c' cl se msg
      | ScreenOffMessage \<Rightarrow>
          (Continue, put_call s c' (clearScreenState env cl (cfg_SessionID c')))
      | MuteMessage \<Rightarrow> dispatch_mute env s c' cl se msg
      | UnmuteMessage \<Rightarrow> dispatch_mute env s c' cl se msg
      | _ \<Rightarrow> (Continue, slog Error ''received unexpected message type'' s))"

definition msgReader_step :: "pump_env \<Rightarrow> Server \<Rightarrow> Message \<Rightarrow> loop_ctl \<times> Server" where
  "msgReader_step env s msg =
     (case Message_IsValid msg of
        Some err \<Rightarrow> (Continue, slog Error ''invalid message'' s)
      | None \<Rightarrow>
         (case sessions s (SessionID msg) of
            None \<Rightarrow> (Continue, slog Error ''session not found'' s)
          | Some c' \<Rightarrow>
             (case getGroup s (cfg_GroupID c') of
                None \<Rightarrow> (Continue, slog Error ''group not found'' s)
              | Some g \<Rightarrow>
                 (case getCall g (cfg_CallID c') of
                    None \<Rightarrow> (Continue, slog Error ''call not found'' s)
                  | Some cl \<Rightarrow>
                     (case getSession cl (cfg_SessionID c') of
                        None \<Rightarrow> (Continue, slog Error ''session not found'' s)
                      | Some se \<Rightarrow> dispatch env s c' cl se msg)))))"

text \<open>
  The loop \<open>for msg := range s.sendCh\<close>, run on the messages that the channel delivers
  until it is closed. The result says how the function ended, gives the server as it
  then is, and the delivered messages that were never processed.
\<close>

datatype pump_end = ChannelClosed | Returned | Panicked

fun msgReader :: "pump_env \<Rightarrow> Server \<Rightarrow> Message list \<Rightarrow> pump_end \<times> Server \<times> Message list" where
  "msgReader env s [] = (ChannelClosed, s, [])"
| "msgReader env s (msg # rest) =
     (case msgReader_step env s msg of
        (Continue, s') \<Rightarrow> msgReader env s' rest
      | (Return, s') \<Rightarrow> (Returned, s', rest)
      | (Panic, s') \<Rightarrow> (Panicked, s', rest))"

text \<open>
  Notions used to state what the pump does: the lookups of \<open>msgReader\<close> in one piece, a
  full channel, and a server with one group, one call and the given sessions, used to
  evaluate the definitions.
\<close>

definition lookup_call :: "Server \<Rightarrow> SessionConfig \<Rightarrow> call option" where
  "lookup_call s c' =
     (case getGroup s (cfg_GroupID c') of
        None \<Rightarrow> None
      | Some g \<Rightarrow> getCall g (cfg_CallID c'))"

definition lookup_session :: "Server \<Rightarrow> SessionConfig \<Rightarrow> session option" where
  "lookup_session s c' =
     (case lookup_call s c' of
        None \<Rightarrow> None
      | Some cl \<Rightarrow> getSession cl (cfg_SessionID c'))"

definition chan_full :: "'a chan \<Rightarrow> bool" where
  "chan_full ch \<longleftrightarrow> \<not> is_closed ch \<and> capacity ch \<le> length (buf ch)"

definition one_call_server :: "(string \<rightharpoonup> session) \<Rightarrow> string option \<Rightarrow> Server" where
  "one_call_server ss screen =
     \<lparr>groups = [''g'' \<mapsto> \<lparr>group_id = ''g'', calls = [''c'' \<mapsto>
          \<lparr>call_id = ''c'', call_sessions = ss, screenSession = screen\<rparr>]\<rparr>],
      sessions = (\<lambda>sid. map_option cfg (ss sid)),
      sendCh = make_chan 256, receiveCh = make_chan 256, srv_log = []\<rparr>"

definition no_json :: pump_env where
  "no_json =
     \<lparr>unmarshal_sdp = (\<lambda>_. None), unmarshal_screen = (\<lambda>_. None),
      clearScreenState = (\<lambda>cl _. cl), vad_Reset = (\<lambda>v. v)\<rparr>"


section \<open>Properties of the rate monitor\<close>

lemmas rm_eval = NewRateMonitor_def PushSample_def push_append_def push_overwrite_def
  getSamplesDuration_def slot_at_def slot_update_def go_rem_def go_index_def go_update_def
  wrap64_def GetRate_def GetRate_loop.simps bitsPerSec_exact_def Let_def

lemma go_rem_nonneg: "0 \<le> a \<Longrightarrow> 0 < b \<Longrightarrow> go_rem a b = Some (a mod b)"
  by (simp add: go_rem_def sgn_if)

lemma go_index_nat: "i < length xs \<Longrightarrow> go_index xs (int i) = Some (xs ! i)"
  by (simp add: go_index_def)

lemma go_update_nat: "i < length xs \<Longrightarrow> go_update xs (int i) v = Some (xs[i := v])"
  by (simp add: go_update_def)

lemma slot_at_nat: "xs \<noteq> [] \<Longrightarrow> slot_at xs (int k) = Some (xs ! (k mod length xs))"
  by (simp add: slot_at_def go_rem_nonneg go_index_nat zmod_int [symmetric])

lemma slot_update_nat:
  "xs \<noteq> [] \<Longrightarrow> slot_update xs (int k) v = Some (xs[k mod length xs := v])"
  by (simp add: slot_update_def go_rem_nonneg go_update_nat zmod_int [symmetric])

lemma wrap64_id: "- (2 ^ 63) \<le> x \<Longrightarrow> x < 2 ^ 63 \<Longrightarrow> wrap64 x = x"
  by (simp add: wrap64_def)


text \<open>
  Why the window is bounded in what follows: from \<open>2^62\<close> ns on, \<open>samplingSize * 2\<close>
  wraps to a negative duration, the first push takes the overwriting branch on an
  empty buffer, and the remainder by its length zero panics.
\<close>

lemma PushSample_window_overflow:
  "NewRateMonitor (2 ^ 62) =
     Inr \<lparr>samples = [], timestamps = [], samplesPtr = 0, samplingSize = 2 ^ 62, filled = False\<rparr> \<and>
   PushSample \<lparr>samples = [], timestamps = [], samplesPtr = 0, samplingSize = 2 ^ 62, filled = False\<rparr>
     sz t = None"
  by (simp add: NewRateMonitor_def PushSample_def push_overwrite_def getSamplesDuration_def
      slot_update_def go_rem_def wrap64_def)

lemma rotate_update_at:
  assumes "xs \<noteq> []"
  shows "rotate L (xs[L mod length xs := x]) = (rotate L xs)[0 := x]"
proof (rule nth_equalityI)
  show "length (rotate L (xs[L mod length xs := x])) = length ((rotate L xs)[0 := x])"
    by simp
next
  fix i assume "i < length (rotate L (xs[L mod length xs := x]))"
  then have i: "i < length xs" by simp
  have eq0: "(L + i) mod length xs = L mod length xs \<longleftrightarrow> i = 0"
  proof
    assume e: "(L + i) mod length xs = L mod length xs"
    let ?n = "length xs" and ?r = "L mod length xs"
    have r: "?r < ?n" using assms by simp
    have s: "(L + i) mod ?n = (?r + i) mod ?n" by (simp add: mod_add_left_eq)
    show "i = 0"
    proof (cases "?r + i < ?n")
      case True
      then have "(?r + i) mod ?n = ?r + i" by simp
      with e s show ?thesis by simp
    next
      case False
      then have "(?r + i) mod ?n = (?r + i - ?n) mod ?n" by (simp add: le_mod_geq)
      also have "\<dots> = ?r + i - ?n" using r i by simp
      finally have "?r + i - ?n = ?r" using e s by simp
      with False i show ?thesis by linarith
    qed
  qed simp
  show "rotate L (xs[L mod length xs := x]) ! i = (rotate L xs)[0 := x] ! i"
  proof (cases "i = 0")
    case True
    then show ?thesis using i assms by (simp add: nth_rotate)
  next
    case False
    with eq0 have "(L + i) mod length xs \<noteq> L mod length xs" by simp
    then show ?thesis using i False by (simp add: nth_rotate)
  qed
qed

lemma rotate_update_cursor:
  assumes "xs \<noteq> []"
  shows "rotate (Suc L) (xs[L mod length xs := x]) = tl (rotate L xs) @ [x]"
proof -
  have ne: "rotate L xs \<noteq> []" using assms by simp
  then obtain y ys where ys: "rotate L xs = y # ys" by (cases "rotate L xs") auto
  show ?thesis
    by (simp add: rotate_update_at [OF assms] ys)
qed

lemma last_rotate_Suc:
  assumes "xs \<noteq> []"
  shows "last (rotate (Suc L) xs) = xs ! (L mod length xs)"
proof -
  have ne: "rotate L xs \<noteq> []" using assms by simp
  then obtain y ys where ys: "rotate L xs = y # ys" by (cases "rotate L xs") auto
  have "hd (rotate L xs) = xs ! (L mod length xs)"
    using assms by (rule hd_rotate_conv_nth)
  then show ?thesis by (simp add: ys)
qed


lemma getSamplesDuration_cursor:
  assumes "timestamps m \<noteq> []" "samplesPtr m = int L" "1 \<le> L"
  shows "getSamplesDuration m =
           Some (timestamps m ! ((L - 1) mod length (timestamps m))
                 - timestamps m ! (L mod length (timestamps m)))"
proof -
  let ?n = "length (timestamps m)"
  have n: "0 < ?n" using assms(1) by simp
  have a: "samplesPtr m - 1 = int (L - 1)" using assms by simp
  have s1: "slot_at (timestamps m) (samplesPtr m - 1) = Some (timestamps m ! ((L - 1) mod ?n))"
    unfolding a using assms(1) by (rule slot_at_nat)
  have s2: "slot_at (timestamps m) (samplesPtr m) = Some (timestamps m ! (L mod ?n))"
    unfolding assms(2) using assms(1) by (rule slot_at_nat)
  show ?thesis
    using n by (simp add: getSamplesDuration_def s1 s2)
qed

lemma stored_hd:
  assumes "timestamps m \<noteq> []" "length (samples m) = length (timestamps m)" "samplesPtr m = int L"
  shows "snd (hd (stored m)) = timestamps m ! (L mod length (timestamps m))"
proof -
  have "zip (samples m) (timestamps m) \<noteq> []" using assms by (cases "samples m"; cases "timestamps m") auto
  then have "hd (stored m) = zip (samples m) (timestamps m) ! (L mod length (zip (samples m) (timestamps m)))"
    unfolding stored_def using assms(3) by (simp add: hd_rotate_conv_nth)
  then show ?thesis using assms by simp
qed

lemma stored_last:
  assumes "timestamps m \<noteq> []" "length (samples m) = length (timestamps m)" "samplesPtr m = int L" "1 \<le> L"
  shows "snd (last (stored m)) = timestamps m ! ((L - 1) mod length (timestamps m))"
proof -
  have ne: "zip (samples m) (timestamps m) \<noteq> []" using assms by (cases "samples m"; cases "timestamps m") auto
  have "stored m = rotate (Suc (L - 1)) (zip (samples m) (timestamps m))"
    unfolding stored_def using assms by simp
  then have "last (stored m) = zip (samples m) (timestamps m) ! ((L - 1) mod length (zip (samples m) (timestamps m)))"
    using last_rotate_Suc [OF ne] by simp
  then show ?thesis using assms by simp
qed

lemma getSamplesDuration_stored:
  assumes "timestamps m \<noteq> []" "length (samples m) = length (timestamps m)" "samplesPtr m = int L" "1 \<le> L"
  shows "getSamplesDuration m = Some (snd (last (stored m)) - snd (hd (stored m)))"
  using getSamplesDuration_cursor [OF assms(1,3,4)] stored_hd [OF assms(1,2,3)] stored_last [OF assms]
  by simp


lemma stored_unfilled:
  assumes "rm_inv W ps m" "\<not> filled m"
  shows "zip (samples m) (timestamps m) = ps"
proof -
  have "length (zip (samples m) (timestamps m)) = length ps"
    using assms by (simp add: rm_inv_def)
  then have "rotate (length ps) (zip (samples m) (timestamps m)) = zip (samples m) (timestamps m)"
    by simp
  moreover have "stored m = rotate (length ps) (zip (samples m) (timestamps m))"
    using assms by (simp add: rm_inv_def stored_def)
  moreover have "stored m = ps" using assms by (simp add: rm_inv_def)
  ultimately show ?thesis by simp
qed

lemma unfilled_duration:
  assumes W: "0 < W" "W < 2 ^ 62" and inv: "rm_inv W ps m" and nf: "\<not> filled m"
  shows "\<exists>d. getSamplesDuration m = Some d \<and> d < wrap64 (samplingSize m * 2)"
proof -
  have w: "wrap64 (samplingSize m * 2) = 2 * W"
    using W inv by (simp add: rm_inv_def wrap64_id)
  show ?thesis
  proof (cases "ps = []")
    case True
    then have "timestamps m = []" using inv by (simp add: rm_inv_def)
    then show ?thesis using W w by (simp add: getSamplesDuration_def)
  next
    case False
    then have L: "1 \<le> length ps" by (cases ps) auto
    have ne: "timestamps m \<noteq> []" and len: "length (samples m) = length (timestamps m)"
      and ptr: "samplesPtr m = int (length ps)"
      using inv False by (simp_all add: rm_inv_def)
    have st: "stored m = ps" using inv nf by (simp add: rm_inv_def)
    have d: "getSamplesDuration m = Some (snd (last ps) - snd (hd ps))"
      using getSamplesDuration_stored [OF ne len ptr L] st by simp
    have "\<not> (snd (ps ! (length ps - 1)) - snd (ps ! 0) \<ge> 2 * W)"
      using inv nf L by (auto simp: rm_inv_def)
    then have "snd (last ps) - snd (hd ps) < 2 * W"
      using False by (simp add: last_conv_nth hd_conv_nth)
    then show ?thesis using d w by simp
  qed
qed

lemma push_append_inv:
  assumes W: "0 < W" "W < 2 ^ 62" and inv: "rm_inv W ps m" and nf: "\<not> filled m"
  shows "\<exists>m'. PushSample m s t = Some m' \<and> rm_inv W (ps @ [(s, t)]) m'"
proof -
  let ?m1 = "m\<lparr>samples := samples m @ [s], timestamps := timestamps m @ [t],
                samplesPtr := samplesPtr m + 1\<rparr>"
  let ?ps' = "ps @ [(s, t)]"
  have w: "wrap64 (samplingSize m * 2) = 2 * W"
    using W inv by (simp add: rm_inv_def wrap64_id)
  have len: "length (samples m) = length (timestamps m)" "length (timestamps m) = length ps"
    and ptr: "samplesPtr m = int (length ps)" and ss: "samplingSize m = W"
    using inv nf by (simp_all add: rm_inv_def)
  have z: "zip (samples m) (timestamps m) = ps" by (rule stored_unfilled [OF inv nf])
  have z1: "zip (samples ?m1) (timestamps ?m1) = ?ps'" using len z by simp
  have st1: "stored ?m1 = ?ps'"
  proof -
    have "nat (samplesPtr ?m1) = length ?ps'" using ptr by simp
    then show ?thesis unfolding stored_def z1 by (simp only: rotate_id mod_self)
  qed
  have d1: "getSamplesDuration ?m1 = Some (t - snd (hd ?ps'))"
  proof -
    have "getSamplesDuration ?m1 = Some (snd (last (stored ?m1)) - snd (hd (stored ?m1)))"
      by (rule getSamplesDuration_stored [where L = "length ps + 1"]) (use len ptr in simp_all)
    then show ?thesis by (simp only: st1) simp
  qed
  define m' where "m' = (if t - snd (hd ?ps') \<ge> 2 * W then ?m1\<lparr>filled := True\<rparr> else ?m1)"
  have push: "PushSample m s t = Some m'"
    using unfilled_duration [OF W inv nf] nf d1 w
    by (auto simp: PushSample_def push_append_def m'_def Let_def)
  have fl: "filled m' \<longleftrightarrow> t - snd (hd ?ps') \<ge> 2 * W"
    using nf by (simp add: m'_def)
  have old: "\<not> (\<exists>k<length ps. snd (ps ! k) - snd (ps ! 0) \<ge> 2 * W)"
    using inv nf by (simp add: rm_inv_def)
  have iff: "filled m' \<longleftrightarrow> (\<exists>k<length ?ps'. snd (?ps' ! k) - snd (?ps' ! 0) \<ge> 2 * W)"
  proof
    assume "filled m'"
    then have "snd (?ps' ! length ps) - snd (?ps' ! 0) \<ge> 2 * W"
      using fl by (simp add: hd_conv_nth)
    then show "\<exists>k<length ?ps'. snd (?ps' ! k) - snd (?ps' ! 0) \<ge> 2 * W"
      by (intro exI [of _ "length ps"]) simp
  next
    assume "\<exists>k<length ?ps'. snd (?ps' ! k) - snd (?ps' ! 0) \<ge> 2 * W"
    then obtain k where k: "k < length ?ps'" "snd (?ps' ! k) - snd (?ps' ! 0) \<ge> 2 * W" by blast
    have "k = length ps"
    proof (rule ccontr)
      assume "k \<noteq> length ps"
      then have kl: "k < length ps" using k(1) by simp
      then have "ps \<noteq> []" by auto
      with kl have "?ps' ! k = ps ! k" "?ps' ! 0 = ps ! 0" by (simp_all add: nth_append)
      with k(2) kl old show False by auto
    qed
    then show "filled m'" using k(2) fl by (simp add: hd_conv_nth)
  qed
  have "rm_inv W ?ps' m'"
    unfolding rm_inv_def
  proof (intro conjI)
    show "stored m' = drop (length ?ps' - length (timestamps m')) ?ps'"
      using st1 len by (simp add: m'_def stored_def)
  qed (use len ptr ss iff in \<open>simp_all add: m'_def\<close>)
  with push show ?thesis by blast
qed


lemma inv_filled_nonempty:
  assumes "rm_inv W ps m" "filled m"
  shows "ps \<noteq> []" "timestamps m \<noteq> []"
proof -
  from assms obtain k where "k < length ps" by (auto simp: rm_inv_def)
  then show "ps \<noteq> []" by auto
  then show "timestamps m \<noteq> []" using assms by (simp add: rm_inv_def)
qed

lemma push_overwrite_eq:
  assumes inv: "rm_inv W ps m" and f: "filled m"
  shows "PushSample m s t =
           Some (m\<lparr>samples := (samples m)[length ps mod length (timestamps m) := s],
                    timestamps := (timestamps m)[length ps mod length (timestamps m) := t],
                    samplesPtr := samplesPtr m + 1\<rparr>)"
proof -
  let ?n = "length (timestamps m)"
  have ne: "timestamps m \<noteq> []" by (rule inv_filled_nonempty [OF inv f])
  then have n: "0 < ?n" by simp
  have len: "length (samples m) = ?n" and ptr: "samplesPtr m = int (length ps)"
    using inv by (simp_all add: rm_inv_def)
  have ne': "samples m \<noteq> []" using ne len by (metis length_0_conv)
  show ?thesis
    using f ptr ne ne' len by (simp add: PushSample_def push_overwrite_def slot_update_nat)
qed

lemma push_overwrite_inv:
  assumes inv: "rm_inv W ps m" and f: "filled m"
  shows "\<exists>m'. PushSample m s t = Some m' \<and> rm_inv W (ps @ [(s, t)]) m' \<and> filled m'"
proof -
  let ?n = "length (timestamps m)" and ?L = "length ps"
  let ?m' = "m\<lparr>samples := (samples m)[?L mod ?n := s],
                timestamps := (timestamps m)[?L mod ?n := t],
                samplesPtr := samplesPtr m + 1\<rparr>"
  let ?ps' = "ps @ [(s, t)]"
  let ?z = "zip (samples m) (timestamps m)"
  have ne: "timestamps m \<noteq> []" "ps \<noteq> []" using inv_filled_nonempty [OF inv f] by simp_all
  have len: "length (samples m) = ?n" and ptr: "samplesPtr m = int ?L"
    and le: "?n \<le> ?L" and st: "stored m = drop (?L - ?n) ps" and ss: "samplingSize m = W"
    using inv by (simp_all add: rm_inv_def)
  have zlen: "length ?z = ?n" using len by simp
  then have zne: "?z \<noteq> []" using ne(1) by (metis length_0_conv)
  from inv f obtain k where k: "k < ?L" "snd (ps ! k) - snd (ps ! 0) \<ge> 2 * W"
    by (auto simp: rm_inv_def)
  have "stored ?m' = rotate (Suc ?L) (?z[?L mod length ?z := (s, t)])"
    using ptr zlen by (simp add: stored_def update_zip nat_add_distrib)
  also have "\<dots> = tl (rotate ?L ?z) @ [(s, t)]" by (rule rotate_update_cursor [OF zne])
  also have "rotate ?L ?z = drop (?L - ?n) ps" using st ptr by (simp add: stored_def)
  also have "tl (drop (?L - ?n) ps) @ [(s, t)] = drop (Suc ?L - ?n) ?ps'"
  proof -
    have n1: "1 \<le> ?n" using ne(1) by (simp add: Suc_le_eq)
    have a: "Suc ?L - ?n = Suc (?L - ?n)" using le by (rule Suc_diff_le)
    have b: "Suc (?L - ?n) - ?L = 0" using n1 le by simp
    have "drop (Suc (?L - ?n)) ?ps' = drop (Suc (?L - ?n)) ps @ [(s, t)]"
      unfolding drop_append b by simp
    moreover have "tl (drop (?L - ?n) ps) = drop (Suc (?L - ?n)) ps"
      by (simp add: drop_Suc tl_drop)
    ultimately show ?thesis using a by simp
  qed
  finally have st': "stored ?m' = drop (length ?ps' - length (timestamps ?m')) ?ps'" by simp
  have iff: "\<exists>k<length ?ps'. snd (?ps' ! k) - snd (?ps' ! 0) \<ge> 2 * W"
    using k ne by (intro exI [of _ k]) (simp add: nth_append)
  have "rm_inv W ?ps' ?m'"
    unfolding rm_inv_def
  proof (intro conjI)
    show "stored ?m' = drop (length ?ps' - length (timestamps ?m')) ?ps'" by (rule st')
    show "filled ?m' \<longleftrightarrow> (\<exists>k<length ?ps'. snd (?ps' ! k) - snd (?ps' ! 0) \<ge> 2 * W)"
      using f iff by simp
  qed (use len ptr ss le f ne in simp_all)
  then show ?thesis using push_overwrite_eq [OF inv f] f by simp
qed

lemma PushSample_inv:
  assumes W: "0 < W" "W < 2 ^ 62" and inv: "rm_inv W ps m"
  shows "\<exists>m'. PushSample m s t = Some m' \<and> rm_inv W (ps @ [(s, t)]) m'"
  using push_append_inv [OF W inv] push_overwrite_inv [OF inv] by (cases "filled m") blast+

lemma pushes_inv:
  assumes W: "0 < W" "W < 2 ^ 62"
  shows "rm_inv W pre m \<Longrightarrow> \<exists>m'. pushes m ps = Some m' \<and> rm_inv W (pre @ ps) m'"
proof (induction ps arbitrary: pre m)
  case Nil
  then show ?case by simp
next
  case (Cons p ps)
  obtain s t where p: "p = (s, t)" by (cases p)
  from PushSample_inv [OF W Cons.prems, of s t]
  obtain m1 where m1: "PushSample m s t = Some m1" "rm_inv W (pre @ [(s, t)]) m1" by blast
  from Cons.IH [OF m1(2)] obtain m' where "pushes m1 ps = Some m'" "rm_inv W ((pre @ [(s, t)]) @ ps) m'"
    by blast
  then show ?case using m1(1) p by simp
qed

lemma NewRateMonitor_inv:
  assumes "NewRateMonitor W = Inr m0"
  shows "0 < W" "rm_inv W [] m0"
  using assms by (auto simp: NewRateMonitor_def rm_inv_def stored_def split: if_splits)

lemma reachable_inv:
  assumes "NewRateMonitor W = Inr m0" "W < 2 ^ 62"
  shows "\<exists>m. pushes m0 ps = Some m \<and> rm_inv W ps m"
  using pushes_inv [OF NewRateMonitor_inv(1) [OF assms(1)] assms(2) NewRateMonitor_inv(2) [OF assms(1)], of ps]
  by simp


lemma length_stored: "length (samples m) = length (timestamps m) \<Longrightarrow> length (stored m) = length (timestamps m)"
  by (simp add: stored_def)

lemma rev_stored_nth:
  assumes ne: "timestamps m \<noteq> []" and len: "length (samples m) = length (timestamps m)"
    and ptr: "samplesPtr m = int L" and le: "length (timestamps m) \<le> L"
    and k: "k < length (timestamps m)"
  shows "rev (stored m) ! k =
           (samples m ! ((L - 1 - k) mod length (timestamps m)),
            timestamps m ! ((L - 1 - k) mod length (timestamps m)))"
proof -
  let ?n = "length (timestamps m)" and ?z = "zip (samples m) (timestamps m)"
  have zl: "length ?z = ?n" using len by simp
  have "rev (stored m) ! k = stored m ! (?n - Suc k)"
    using k len by (simp add: rev_nth length_stored)
  also have "\<dots> = ?z ! ((L + (?n - Suc k)) mod ?n)"
    using k zl ptr by (simp add: stored_def nth_rotate)
  also have "(L + (?n - Suc k)) mod ?n = (L - 1 - k + ?n) mod ?n"
    using k le by (intro arg_cong [where f = "\<lambda>x. x mod ?n"]) simp
  also have "\<dots> = (L - 1 - k) mod ?n" by simp
  finally have e: "rev (stored m) ! k = ?z ! ((L - 1 - k) mod ?n)" .
  have "0 < ?n" using ne by simp
  then have "(L - 1 - k) mod ?n < ?n" by (rule mod_less_divisor)
  then show ?thesis unfolding e using len by simp
qed

lemma GetRate_loop_walk:
  assumes ne: "timestamps m \<noteq> []" and len: "length (samples m) = length (timestamps m)"
    and ptr: "samplesPtr m = int L" and le: "length (timestamps m) \<le> L"
  shows "k \<le> length (timestamps m) \<Longrightarrow>
         GetRate_loop m now (int L - 1 - int k) tot dur =
           Some (walk now (samplingSize m) (drop k (rev (stored m))) tot dur)"
proof (induction "length (timestamps m) - k" arbitrary: k tot dur)
  case 0
  then have k: "k = length (timestamps m)" by simp
  have "drop k (rev (stored m)) = []" using k len by (simp add: length_stored)
  moreover have "\<not> (int L - 1 - int k \<ge> samplesPtr m - int (length (samples m)))"
    using k len ptr by simp
  ultimately show ?case by (subst GetRate_loop.simps) simp
next
  case (Suc d)
  let ?n = "length (timestamps m)" and ?j = "(L - 1 - k) mod length (timestamps m)"
  have k: "k < ?n" using Suc.hyps(2) by simp
  have i: "int L - 1 - int k = int (L - 1 - k)" using k le by simp
  have ne': "samples m \<noteq> []" using ne len by (metis length_0_conv)
  have c: "int L - 1 - int k \<ge> samplesPtr m - int (length (samples m))"
    using k len ptr by simp
  have s1: "slot_at (timestamps m) (int L - 1 - int k) = Some (timestamps m ! ?j)"
    unfolding i using ne by (rule slot_at_nat)
  have s2: "slot_at (samples m) (int L - 1 - int k) = Some (samples m ! ?j)"
    unfolding i using slot_at_nat [OF ne', of "L - 1 - k"] len by simp
  have d: "drop k (rev (stored m)) = (samples m ! ?j, timestamps m ! ?j) # drop (Suc k) (rev (stored m))"
    using rev_stored_nth [OF ne len ptr le k] k len
    by (simp add: Cons_nth_drop_Suc [symmetric] length_stored)
  have ih: "GetRate_loop m now (int L - 1 - int k - 1) tot' dur' =
              Some (walk now (samplingSize m) (drop (Suc k) (rev (stored m))) tot' dur')" for tot' dur'
    using Suc.hyps(1) [of "Suc k" tot' dur'] Suc.hyps(2) k by (simp add: algebra_simps)
  have step: "GetRate_loop m now (int L - 1 - int k) tot dur =
      (if now - timestamps m ! ?j \<ge> samplingSize m
       then Some (wrap64 (tot + samples m ! ?j), now - timestamps m ! ?j)
       else GetRate_loop m now (int L - 1 - int k - 1) (wrap64 (tot + samples m ! ?j))
              (now - timestamps m ! ?j))"
    by (subst GetRate_loop.simps) (simp only: c s1 s2 if_True option.case)
  show ?case unfolding step d ih by simp
qed

lemma GetRate_filled:
  assumes inv: "rm_inv W ps m" and f: "filled m"
  shows "GetRate bps m now =
           Some (bps (fst (walk now W (rev (stored m)) 0 0)) (snd (walk now W (rev (stored m)) 0 0)),
                 snd (walk now W (rev (stored m)) 0 0))"
proof -
  have ne: "timestamps m \<noteq> []" by (rule inv_filled_nonempty [OF inv f])
  have len: "length (samples m) = length (timestamps m)" and ptr: "samplesPtr m = int (length ps)"
    and le: "length (timestamps m) \<le> length ps" and ss: "samplingSize m = W"
    using inv by (simp_all add: rm_inv_def)
  have "GetRate_loop m now (samplesPtr m - 1) 0 0 = Some (walk now W (rev (stored m)) 0 0)"
    using GetRate_loop_walk [OF ne len ptr le, of 0 now 0 0] ptr ss by simp
  then show ?thesis using f by (simp add: GetRate_def split_beta)
qed


lemma sorted_hd_le: "sorted ys \<Longrightarrow> y \<in> set ys \<Longrightarrow> hd ys \<le> (y::int)"
  by (cases ys) auto

lemma sorted_le_last: "sorted ys \<Longrightarrow> y \<in> set ys \<Longrightarrow> (y::int) \<le> last ys"
  by (induction ys) (auto split: if_splits)

lemma sorted_Min_hd:
  assumes "sorted ys" "ys \<noteq> []"
  shows "Min (set ys) = hd (ys::int list)"
proof (rule Min_eqI)
  show "finite (set ys)" by simp
  show "hd ys \<le> y" if "y \<in> set ys" for y using assms(1) that by (rule sorted_hd_le)
  show "hd ys \<in> set ys" using assms(2) by simp
qed

lemma sorted_Max_last:
  assumes "sorted ys" "ys \<noteq> []"
  shows "Max (set ys) = last (ys::int list)"
proof (rule Max_eqI)
  show "finite (set ys)" by simp
  show "y \<le> last ys" if "y \<in> set ys" for y using assms(1) that by (rule sorted_le_last)
  show "last ys \<in> set ys" using assms(2) by simp
qed

lemma walk_span_cases:
  "xs \<noteq> [] \<Longrightarrow> W \<le> snd (walk now W xs tot dur) \<or> snd (walk now W xs tot dur) = now - snd (last xs)"
proof (induction xs arbitrary: tot dur)
  case Nil
  then show ?case by simp
next
  case (Cons p xs)
  obtain sz ts where p: "p = (sz, ts)" by (cases p)
  show ?case
  proof (cases "xs = []")
    case True
    then show ?thesis by (simp add: p)
  next
    case False
    from Cons.IH [OF False] show ?thesis using False by (simp add: p)
  qed
qed

lemma walk_span_mem:
  "xs \<noteq> [] \<Longrightarrow> \<exists>p\<in>set xs. snd (walk now W xs tot dur) = now - snd p"
proof (induction xs arbitrary: tot dur)
  case Nil
  then show ?case by simp
next
  case (Cons p xs)
  obtain sz ts where p: "p = (sz, ts)" by (cases p)
  show ?case
  proof (cases "xs = []")
    case True
    then show ?thesis by (simp add: p)
  next
    case False
    from Cons.IH [OF False, of "wrap64 (tot + sz)" "now - ts"] show ?thesis by (auto simp: p)
  qed
qed

lemma walk_total_nonneg:
  "0 \<le> tot \<Longrightarrow> \<forall>p\<in>set xs. 0 \<le> fst p \<Longrightarrow> tot + sum_list (map fst xs) < 2 ^ 63 \<Longrightarrow>
   0 \<le> fst (walk now W xs tot dur)"
proof (induction xs arbitrary: tot dur)
  case Nil
  then show ?case by simp
next
  case (Cons p xs)
  obtain sz ts where p: "p = (sz, ts)" by (cases p)
  have nn: "0 \<le> sz" "\<forall>p\<in>set xs. 0 \<le> fst p" using Cons.prems(2) by (simp_all add: p)
  have rest: "0 \<le> sum_list (map fst xs)" using nn(2) by (intro sum_list_nonneg) auto
  have bound: "tot + sz + sum_list (map fst xs) < 2 ^ 63" using Cons.prems(3) by (simp add: p)
  have w: "wrap64 (tot + sz) = tot + sz"
    using Cons.prems(1) nn(1) rest bound by (intro wrap64_id) simp_all
  have a: "0 \<le> tot + sz" using Cons.prems(1) nn(1) by simp
  from Cons.IH [OF a nn(2) bound, of "now - ts"] a show ?case by (simp add: p w)
qed

lemma inv_stored_sorted:
  assumes "rm_inv W ps m" "sorted (map snd ps)"
  shows "sorted (map snd (stored m))"
proof -
  have "map snd (stored m) = drop (length ps - length (timestamps m)) (map snd ps)"
    using assms(1) by (simp add: rm_inv_def drop_map)
  then show ?thesis using assms(2) by simp
qed

lemma inv_stored_timestamps:
  assumes "rm_inv W ps m"
  shows "map snd (stored m) = rotate (length ps) (timestamps m)"
  using assms by (simp add: rm_inv_def stored_def rotate_map [symmetric])

lemma inv_cursor_oldest:
  assumes inv: "rm_inv W ps m" and ne: "timestamps m \<noteq> []"
  shows "slot_at (timestamps m) (samplesPtr m) = Some (snd (hd (stored m)))"
proof -
  have len: "length (samples m) = length (timestamps m)" and ptr: "samplesPtr m = int (length ps)"
    using inv by (simp_all add: rm_inv_def)
  show ?thesis
    unfolding ptr stored_hd [OF ne len ptr] using ne by (rule slot_at_nat)
qed

lemma inv_cursor_newest:
  assumes inv: "rm_inv W ps m" and ne: "timestamps m \<noteq> []"
  shows "slot_at (timestamps m) (samplesPtr m - 1) = Some (snd (last (stored m)))"
proof -
  have len: "length (samples m) = length (timestamps m)" and ptr: "samplesPtr m = int (length ps)"
    and le: "length (timestamps m) \<le> length ps"
    using inv by (simp_all add: rm_inv_def)
  have L: "1 \<le> length ps" using ne le by (cases "timestamps m") auto
  have a: "samplesPtr m - 1 = int (length ps - 1)" using ptr L by simp
  show ?thesis
    unfolding a stored_last [OF ne len ptr L] using ne by (rule slot_at_nat)
qed

lemma pushes_filled_length:
  "rm_inv W ps m \<Longrightarrow> filled m \<Longrightarrow>
   \<exists>m'. pushes m qs = Some m' \<and> filled m' \<and> length (samples m') = length (samples m)
        \<and> length (timestamps m') = length (timestamps m)"
proof (induction qs arbitrary: ps m)
  case Nil
  then show ?case by simp
next
  case (Cons q qs)
  obtain s t where q: "q = (s, t)" by (cases q)
  from push_overwrite_inv [OF Cons.prems, of s t]
  obtain m1 where m1: "PushSample m s t = Some m1" "rm_inv W (ps @ [(s, t)]) m1" "filled m1" by blast
  have l: "length (samples m1) = length (samples m)" "length (timestamps m1) = length (timestamps m)"
    using m1(1) push_overwrite_eq [OF Cons.prems, of s t] by auto
  from Cons.IH [OF m1(2,3)] show ?case using m1(1) l by (simp add: q)
qed


lemma bitsPerSec_exact_not_sentinel:
  assumes "0 \<le> t" "0 \<le> d"
  shows "bitsPerSec_exact t d \<noteq> - 1"
proof (cases "d = 0")
  case True
  then show ?thesis by (simp add: bitsPerSec_exact_def)
next
  case False
  with assms have d: "0 < d" by simp
  have "0 \<le> (2 * \<bar>t * 8 * 1000000000\<bar> + \<bar>d\<bar>) div (2 * \<bar>d\<bar>)"
    by (rule pos_imp_zdiv_nonneg_iff [THEN iffD2]) (use d in simp_all)
  moreover have "0 \<le> sgn (t * 8 * 1000000000)" using assms(1) by (simp add: sgn_if)
  ultimately have "0 \<le> bitsPerSec_exact t d"
    using d by (simp add: bitsPerSec_exact_def Let_def)
  then show ?thesis by simp
qed

text \<open>
  Why the stored byte total is bounded where the rate is compared with \<open>-1\<close>: with a
  window of 8 s and pushes of \<open>2^63 - 1\<close>, \<open>2^63 - 1\<close> and \<open>1\<close> bytes at 0 s, 9 s and
  16 s, the 64-bit total of \<open>GetRate\<close> at 16 s wraps to \<open>-1\<close>, and the rate over the
  span of 16 s is \<open>-1\<close>.
\<close>

lemma GetRate_total_wraps:
  "pushes \<lparr>samples = [], timestamps = [], samplesPtr = 0, samplingSize = 8000000000, filled = False\<rparr>
     [(9223372036854775807, 0), (9223372036854775807, 9000000000), (1, 16000000000)] =
     Some \<lparr>samples = [9223372036854775807, 9223372036854775807, 1],
            timestamps = [0, 9000000000, 16000000000], samplesPtr = 3,
            samplingSize = 8000000000, filled = True\<rparr> \<and>
   GetRate bitsPerSec_exact
     \<lparr>samples = [9223372036854775807, 9223372036854775807, 1],
      timestamps = [0, 9000000000, 16000000000], samplesPtr = 3,
      samplingSize = 8000000000, filled = True\<rparr> 16000000000 = Some (- 1, 16000000000)"
  by (simp add: rm_eval)


subsection \<open>Claims about the rate monitor\<close>

text \<open>
  Claim C1, as the specification states it: once pushes spanning at least \<open>2 * W\<close> of
  wall-clock time have occurred, every later \<open>GetRate\<close> returns a rate other than
  \<open>-1\<close> and a span between \<open>W\<close> and \<open>2 * W\<close>. The bounds on the span do not hold. With
  a window of one second, two pushes three seconds apart fill the monitor and
  \<open>GetRate\<close> then reports a span of three seconds, above \<open>2 * W\<close>; and after pushes at
  0 s and 2 s have filled a monitor of two slots, two pushes one millisecond apart
  overwrite both slots and \<open>GetRate\<close> reports a span of one millisecond, below \<open>W\<close>.
\<close>

theorem GetRate_span_counterexample:
  "NewRateMonitor 1000000000 =
     Inr \<lparr>samples = [], timestamps = [], samplesPtr = 0, samplingSize = 1000000000, filled = False\<rparr>
   \<and> pushes \<lparr>samples = [], timestamps = [], samplesPtr = 0, samplingSize = 1000000000, filled = False\<rparr>
        [(100, 0), (100, 3000000000)] =
     Some \<lparr>samples = [100, 100], timestamps = [0, 3000000000], samplesPtr = 2,
            samplingSize = 1000000000, filled = True\<rparr>
   \<and> GetRate bitsPerSec_exact
        \<lparr>samples = [100, 100], timestamps = [0, 3000000000], samplesPtr = 2,
            samplingSize = 1000000000, filled = True\<rparr> 3000000000 = Some (533, 3000000000)
   \<and> \<not> (3000000000 \<le> 2 * (1000000000 :: int))
   \<and> pushes \<lparr>samples = [], timestamps = [], samplesPtr = 0, samplingSize = 1000000000, filled = False\<rparr>
        [(100, 0), (100, 2000000000), (100, 2001000000), (100, 2002000000)] =
     Some \<lparr>samples = [100, 100], timestamps = [2001000000, 2002000000], samplesPtr = 4,
            samplingSize = 1000000000, filled = True\<rparr>
   \<and> GetRate bitsPerSec_exact
        \<lparr>samples = [100, 100], timestamps = [2001000000, 2002000000], samplesPtr = 4,
            samplingSize = 1000000000, filled = True\<rparr> 2002000000 = Some (1600000, 1000000)
   \<and> \<not> (1000000000 \<le> (1000000 :: int))"
  by (simp add: rm_eval)

text \<open>
  Claim C1, amended: for a monitor with window \<open>W\<close> below \<open>2^62\<close> ns (where
  \<open>samplingSize * 2\<close> does not overflow), a clock that never runs backwards and sample
  sizes that are not negative, once the pushes span at least \<open>2 * W\<close> the monitor is
  filled and every \<open>GetRate\<close> at a clock reading not before the newest push returns a
  span that is not negative, is at most the age of the oldest stored sample (the one
  at the cursor), and either reaches \<open>W\<close> or is exactly the age of the oldest stored
  sample. The rate is other than \<open>-1\<close> when the sizes of the stored samples sum to
  less than \<open>2^63\<close>, so that the 64-bit byte total does not wrap, given that the float64
  bit-rate expression does not yield \<open>-1\<close> for a byte total and a span that are not
  negative.
\<close>

theorem GetRate_span_after_fill:
  assumes new: "NewRateMonitor W = Inr m0" and W: "W < 2 ^ 62"
    and mono: "sorted (map snd ps)"
    and sizes: "\<forall>p\<in>set ps. 0 \<le> fst p"
    and span: "ps \<noteq> []" "2 * W \<le> snd (last ps) - snd (hd ps)"
    and now: "snd (last ps) \<le> now"
    and bps: "\<forall>t d. 0 \<le> t \<and> 0 \<le> d \<longrightarrow> bps t d \<noteq> - 1"
  shows "\<exists>m rate span oldest. pushes m0 ps = Some m \<and> filled m \<and>
     GetRate bps m now = Some (rate, span) \<and>
     (sum_list (map fst (stored m)) < 2 ^ 63 \<longrightarrow> rate \<noteq> - 1) \<and>
     slot_at (timestamps m) (samplesPtr m) = Some oldest \<and>
     0 \<le> span \<and> span \<le> now - oldest \<and> (W \<le> span \<or> span = now - oldest)"
proof -
  from reachable_inv [OF new W, of ps]
  obtain m where run: "pushes m0 ps = Some m" and inv: "rm_inv W ps m" by blast
  have "snd (ps ! (length ps - 1)) - snd (ps ! 0) \<ge> 2 * W"
    using span by (simp add: last_conv_nth hd_conv_nth)
  moreover have "length ps - 1 < length ps" using span(1) by simp
  ultimately have f: "filled m" using inv unfolding rm_inv_def by blast
  have ne: "timestamps m \<noteq> []" by (rule inv_filled_nonempty [OF inv f])
  have len: "length (samples m) = length (timestamps m)"
    and st: "stored m = drop (length ps - length (timestamps m)) ps"
    using inv by (simp_all add: rm_inv_def)
  let ?xs = "rev (stored m)"
  let ?w = "walk now W ?xs 0 0"
  let ?old = "snd (hd (stored m))"
  have sne: "stored m \<noteq> []" using ne len by (simp add: stored_def) (metis length_0_conv)
  then have xne: "?xs \<noteq> []" by simp
  have sub: "set (stored m) \<subseteq> set ps" unfolding st by (rule set_drop_subset)
  have so: "sorted (map snd (stored m))" by (rule inv_stored_sorted [OF inv mono])
  have g: "GetRate bps m now = Some (bps (fst ?w) (snd ?w), snd ?w)"
    by (rule GetRate_filled [OF inv f])
  have old: "slot_at (timestamps m) (samplesPtr m) = Some ?old"
    by (rule inv_cursor_oldest [OF inv ne])
  from walk_span_mem [OF xne, of now W 0 0]
  obtain p where p: "p \<in> set (stored m)" "snd ?w = now - snd p" by auto
  have "?old \<le> snd p"
    using sorted_hd_le [OF so, of "snd p"] p(1) sne by (simp add: hd_map)
  then have up: "snd ?w \<le> now - ?old" using p(2) by simp
  have "snd p \<le> last (map snd ps)"
    using sorted_le_last [OF mono, of "snd p"] p(1) sub by auto
  then have "snd p \<le> now" using now span(1) by (simp add: last_map)
  then have nonneg: "0 \<le> snd ?w" using p(2) by simp
  have cases: "W \<le> snd ?w \<or> snd ?w = now - ?old"
    using walk_span_cases [OF xne, of W now 0 0] sne by (simp add: last_rev)
  have rate: "bps (fst ?w) (snd ?w) \<noteq> - 1" if "sum_list (map fst (stored m)) < 2 ^ 63"
  proof -
    have "0 + sum_list (map fst ?xs) < 2 ^ 63"
      using that by (simp add: rev_map [symmetric])
    moreover have "\<forall>p\<in>set ?xs. 0 \<le> fst p" using sizes sub by auto
    ultimately have "0 \<le> fst ?w" by (intro walk_total_nonneg) simp_all
    then show ?thesis using bps nonneg by blast
  qed
  show ?thesis
    using run f g rate old nonneg up cases by blast
qed

theorem GetRate_span_after_fill_witness:
  "NewRateMonitor 1000000000 = Inr \<lparr>samples = [], timestamps = [], samplesPtr = 0, samplingSize = 1000000000, filled = False\<rparr> \<and>
   sorted (map snd ([(100, 0), (100, 3000000000)] :: (int \<times> int) list)) \<and>
   2 * 1000000000 \<le> snd (last ([(100, 0), (100, 3000000000)] :: (int \<times> int) list))
                      - snd (hd ([(100, 0), (100, 3000000000)] :: (int \<times> int) list)) \<and>
   (\<exists>m rate span oldest.
      pushes \<lparr>samples = [], timestamps = [], samplesPtr = 0, samplingSize = 1000000000, filled = False\<rparr> [(100, 0), (100, 3000000000)] = Some m \<and> filled m \<and>
      GetRate bitsPerSec_exact m 3000000000 = Some (rate, span) \<and>
      sum_list (map fst (stored m)) < 2 ^ 63 \<and> rate \<noteq> - 1 \<and>
      slot_at (timestamps m) (samplesPtr m) = Some oldest \<and>
      0 \<le> span \<and> span \<le> 3000000000 - oldest \<and>
      (1000000000 \<le> span \<or> span = 3000000000 - oldest))"
proof -
  let ?ps = "[(100, 0), (100, 3000000000)] :: (int \<times> int) list"
  let ?init = "\<lparr>samples = [], timestamps = [], samplesPtr = 0, samplingSize = 1000000000, filled = False\<rparr>"
  let ?m = "\<lparr>samples = [100, 100], timestamps = [0, 3000000000], samplesPtr = 2,
             samplingSize = 1000000000, filled = True\<rparr>"
  have h1: "NewRateMonitor 1000000000 = Inr ?init"
    by (simp add: NewRateMonitor_def)
  have h2: "(1000000000 :: int) < 2 ^ 62" by simp
  have h3: "sorted (map snd ?ps)" by simp
  have h4: "\<forall>p\<in>set ?ps. 0 \<le> fst p" by simp
  have h5: "?ps \<noteq> []" by simp
  have h6: "2 * 1000000000 \<le> snd (last ?ps) - snd (hd ?ps)" by simp
  have h7: "snd (last ?ps) \<le> 3000000000" by simp
  have h8: "\<forall>t d. 0 \<le> t \<and> 0 \<le> d \<longrightarrow> bitsPerSec_exact t d \<noteq> - 1"
    using bitsPerSec_exact_not_sentinel by blast
  have run: "pushes ?init ?ps = Some ?m" by (simp add: rm_eval)
  have "stored ?m = ?ps" by (simp add: stored_def numeral_2_eq_2)
  then have small: "sum_list (map fst (stored ?m)) < 2 ^ 63" by simp
  from GetRate_span_after_fill [where bps = bitsPerSec_exact, OF h1 h2 h3 h4 h5 h6 h7 h8]
  obtain m rate span oldest where r: "pushes ?init ?ps = Some m" "filled m"
    "GetRate bitsPerSec_exact m 3000000000 = Some (rate, span)"
    "sum_list (map fst (stored m)) < 2 ^ 63 \<longrightarrow> rate \<noteq> - 1"
    "slot_at (timestamps m) (samplesPtr m) = Some oldest"
    "0 \<le> span" "span \<le> 3000000000 - oldest"
    "1000000000 \<le> span \<or> span = 3000000000 - oldest"
    by blast
  from r(1) run have m: "m = ?m" by simp
  with small r(4) have "sum_list (map fst (stored m)) < 2 ^ 63" "rate \<noteq> - 1" by simp_all
  with r h1 h3 h6 show ?thesis by blast
qed

text \<open>
  Claim C2: \<open>GetRate\<close> returns \<open>(-1, 0)\<close> if and only if the monitor is not filled; the
  monitor is filled exactly when some push lies at least \<open>2 * W\<close> after the first one,
  and until then every push is stored, so that the stored samples are the pushes made
  so far; after exactly one push \<open>GetRate\<close> returns \<open>(-1, 0)\<close>. Proved for a window
  below \<open>2^62\<close> ns, for every run of pushes and every clock, given that the float64
  bit-rate expression does not convert the infinity or NaN of a zero span to \<open>-1\<close>.
  \<open>GetRate\<close> returns in every such state: no index is out of range.
\<close>

theorem GetRate_sentinel_iff_unfilled:
  assumes new: "NewRateMonitor W = Inr m0" and W: "W < 2 ^ 62"
    and bps: "\<forall>t. bps t 0 \<noteq> - 1"
  shows "\<exists>m r. pushes m0 ps = Some m \<and> GetRate bps m now = Some r \<and>
     (r = (- 1, 0) \<longleftrightarrow> \<not> filled m) \<and>
     (filled m \<longleftrightarrow> (\<exists>k<length ps. 2 * W \<le> snd (ps ! k) - snd (ps ! 0))) \<and>
     (\<not> filled m \<longrightarrow> zip (samples m) (timestamps m) = ps) \<and>
     (length ps = 1 \<longrightarrow> r = (- 1, 0))"
proof -
  from reachable_inv [OF new W, of ps]
  obtain m where run: "pushes m0 ps = Some m" and inv: "rm_inv W ps m" by blast
  have Wpos: "0 < W" by (rule NewRateMonitor_inv(1) [OF new])
  have fl: "filled m \<longleftrightarrow> (\<exists>k<length ps. 2 * W \<le> snd (ps ! k) - snd (ps ! 0))"
    using inv by (simp add: rm_inv_def)
  have all: "\<not> filled m \<longrightarrow> zip (samples m) (timestamps m) = ps"
    using stored_unfilled [OF inv] by blast
  have one: "\<not> filled m" if "length ps = 1"
    using that fl Wpos by simp
  obtain r where r: "GetRate bps m now = Some r" "r = (- 1, 0) \<longleftrightarrow> \<not> filled m"
  proof (cases "filled m")
    case True
    let ?w = "walk now W (rev (stored m)) 0 0"
    have g: "GetRate bps m now = Some (bps (fst ?w) (snd ?w), snd ?w)"
      by (rule GetRate_filled [OF inv True])
    have "(bps (fst ?w) (snd ?w), snd ?w) \<noteq> (- 1, 0)" using bps by auto
    with g True that show ?thesis by blast
  next
    case False
    then have "GetRate bps m now = Some (- 1, 0)" by (simp add: GetRate_def)
    with False that show ?thesis by blast
  qed
  show ?thesis
    using run r fl all one by blast
qed

theorem GetRate_sentinel_iff_unfilled_witness:
  "NewRateMonitor 1000000000 = Inr \<lparr>samples = [], timestamps = [], samplesPtr = 0, samplingSize = 1000000000, filled = False\<rparr> \<and>
   (\<exists>m r. pushes \<lparr>samples = [], timestamps = [], samplesPtr = 0, samplingSize = 1000000000, filled = False\<rparr> [(100, 5)] = Some m \<and>
      GetRate bitsPerSec_exact m 7 = Some r \<and>
      (r = (- 1, 0) \<longleftrightarrow> \<not> filled m) \<and>
      (filled m \<longleftrightarrow>
         (\<exists>k<length [(100 :: int, 5 :: int)].
            2 * 1000000000 \<le> snd ([(100 :: int, 5 :: int)] ! k) - snd ([(100 :: int, 5 :: int)] ! 0))) \<and>
      zip (samples m) (timestamps m) = [(100, 5)] \<and>
      r = (- 1, 0))"
proof -
  have h1: "NewRateMonitor 1000000000 = Inr \<lparr>samples = [], timestamps = [], samplesPtr = 0, samplingSize = 1000000000, filled = False\<rparr>"
    by (simp add: NewRateMonitor_def)
  have h2: "(1000000000 :: int) < 2 ^ 62" by simp
  have h3: "\<forall>t. bitsPerSec_exact t 0 \<noteq> - 1" by (simp add: bitsPerSec_exact_def)
  from GetRate_sentinel_iff_unfilled
         [where bps = bitsPerSec_exact and ps = "[(100, 5)]" and now = 7, OF h1 h2 h3]
  obtain m r where
    "pushes \<lparr>samples = [], timestamps = [], samplesPtr = 0, samplingSize = 1000000000, filled = False\<rparr> [(100, 5)] = Some m"
    "GetRate bitsPerSec_exact m 7 = Some r"
    "r = (- 1, 0) \<longleftrightarrow> \<not> filled m"
    "filled m \<longleftrightarrow>
       (\<exists>k<length [(100 :: int, 5 :: int)].
          2 * 1000000000 \<le> snd ([(100 :: int, 5 :: int)] ! k) - snd ([(100 :: int, 5 :: int)] ! 0))"
    "\<not> filled m \<longrightarrow> zip (samples m) (timestamps m) = [(100, 5)]"
    "length [(100 :: int, 5 :: int)] = 1 \<longrightarrow> r = (- 1, 0)"
    by blast
  then show ?thesis using h1 by (intro conjI exI [of _ m] exI [of _ r]) auto
qed

text \<open>
  Claim C3: for a monitor with window below \<open>2^62\<close> ns and a clock that never runs
  backwards, after every run of pushes the ring holds the most recent pushes in push
  order starting at the cursor, their timestamps never decrease in that order, the
  timestamp at \<open>samplesPtr mod len\<close> is the oldest stored one and the timestamp at
  \<open>(samplesPtr - 1) mod len\<close> the newest; once the monitor is filled it stays filled
  and the number of stored samples never changes again, and every push overwrites
  the slot at \<open>samplesPtr mod len\<close> and advances the cursor by one.
\<close>

theorem ring_buffer_invariants:
  assumes new: "NewRateMonitor W = Inr m0" and W: "W < 2 ^ 62"
    and mono: "sorted (map snd ps)"
  shows "\<exists>m. pushes m0 ps = Some m \<and>
     stored m = drop (length ps - length (timestamps m)) ps \<and>
     sorted (map snd (stored m)) \<and>
     (timestamps m \<noteq> [] \<longrightarrow>
        slot_at (timestamps m) (samplesPtr m) = Some (Min (set (timestamps m))) \<and>
        slot_at (timestamps m) (samplesPtr m - 1) = Some (Max (set (timestamps m)))) \<and>
     (filled m \<longrightarrow>
        (\<forall>qs. \<exists>m'. pushes m qs = Some m' \<and> filled m' \<and>
            length (samples m') = length (samples m) \<and>
            length (timestamps m') = length (timestamps m)) \<and>
        (\<forall>s t. \<exists>ss ts.
            slot_update (samples m) (samplesPtr m) s = Some ss \<and>
            slot_update (timestamps m) (samplesPtr m) t = Some ts \<and>
            PushSample m s t =
              Some (m\<lparr>samples := ss, timestamps := ts, samplesPtr := samplesPtr m + 1\<rparr>)))"
proof -
  from reachable_inv [OF new W, of ps]
  obtain m where run: "pushes m0 ps = Some m" and inv: "rm_inv W ps m" by blast
  have st: "stored m = drop (length ps - length (timestamps m)) ps"
    using inv by (simp add: rm_inv_def)
  have so: "sorted (map snd (stored m))" by (rule inv_stored_sorted [OF inv mono])
  have len: "length (samples m) = length (timestamps m)" and ptr: "samplesPtr m = int (length ps)"
    using inv by (simp_all add: rm_inv_def)
  have ends: "slot_at (timestamps m) (samplesPtr m) = Some (Min (set (timestamps m))) \<and>
        slot_at (timestamps m) (samplesPtr m - 1) = Some (Max (set (timestamps m)))"
    if ne: "timestamps m \<noteq> []"
  proof -
    let ?ys = "map snd (stored m)"
    have set: "set ?ys = set (timestamps m)" by (simp add: inv_stored_timestamps [OF inv])
    have yne: "?ys \<noteq> []" using ne len by (simp add: stored_def) (metis length_0_conv)
    have "Min (set ?ys) = hd ?ys" using so yne by (rule sorted_Min_hd)
    moreover have "Max (set ?ys) = last ?ys" using so yne by (rule sorted_Max_last)
    moreover have "hd ?ys = snd (hd (stored m))" "last ?ys = snd (last (stored m))"
      using yne by (simp_all add: hd_map last_map)
    ultimately show ?thesis
      using inv_cursor_oldest [OF inv ne] inv_cursor_newest [OF inv ne] set by simp
  qed
  have keep: "\<exists>m'. pushes m qs = Some m' \<and> filled m' \<and>
            length (samples m') = length (samples m) \<and>
            length (timestamps m') = length (timestamps m)" if "filled m" for qs
    by (rule pushes_filled_length [OF inv that])
  have over: "\<exists>ss ts.
            slot_update (samples m) (samplesPtr m) s = Some ss \<and>
            slot_update (timestamps m) (samplesPtr m) t = Some ts \<and>
            PushSample m s t =
              Some (m\<lparr>samples := ss, timestamps := ts, samplesPtr := samplesPtr m + 1\<rparr>)"
    if f: "filled m" for s t
  proof -
    have ne: "timestamps m \<noteq> []" by (rule inv_filled_nonempty [OF inv f])
    then have ne': "samples m \<noteq> []" using len by (metis length_0_conv)
    show ?thesis
      unfolding ptr using push_overwrite_eq [OF inv f, of s t] ne ne' len ptr
      by (simp add: slot_update_nat)
  qed
  show ?thesis
    using run st so ends keep over by blast
qed

theorem ring_buffer_invariants_witness:
  "NewRateMonitor 1000000000 = Inr \<lparr>samples = [], timestamps = [], samplesPtr = 0, samplingSize = 1000000000, filled = False\<rparr> \<and>
   sorted (map snd ([(100, 0), (200, 2000000000), (300, 2001000000)] :: (int \<times> int) list)) \<and>
   pushes \<lparr>samples = [], timestamps = [], samplesPtr = 0, samplingSize = 1000000000, filled = False\<rparr>
     [(100, 0), (200, 2000000000), (300, 2001000000)] =
     Some \<lparr>samples = [300, 200], timestamps = [2001000000, 2000000000], samplesPtr = 3,
            samplingSize = 1000000000, filled = True\<rparr> \<and>
   stored \<lparr>samples = [300, 200], timestamps = [2001000000, 2000000000], samplesPtr = 3,
            samplingSize = 1000000000, filled = True\<rparr> = [(200, 2000000000), (300, 2001000000)] \<and>
   slot_at [2001000000, 2000000000 :: int] 3 = Some 2000000000 \<and>
   slot_at [2001000000, 2000000000 :: int] (3 - 1) = Some 2001000000"
proof -
  let ?ps = "[(100, 0), (200, 2000000000), (300, 2001000000)] :: (int \<times> int) list"
  let ?m = "\<lparr>samples = [300, 200], timestamps = [2001000000, 2000000000], samplesPtr = 3,
            samplingSize = 1000000000, filled = True\<rparr>"
  have h1: "NewRateMonitor 1000000000 = Inr \<lparr>samples = [], timestamps = [], samplesPtr = 0, samplingSize = 1000000000, filled = False\<rparr>"
    by (simp add: NewRateMonitor_def)
  have h2: "(1000000000 :: int) < 2 ^ 62" by simp
  have h3: "sorted (map snd ?ps)" by simp
  have run: "pushes \<lparr>samples = [], timestamps = [], samplesPtr = 0, samplingSize = 1000000000, filled = False\<rparr> ?ps = Some ?m"
    by (simp add: rm_eval)
  from ring_buffer_invariants [OF h1 h2 h3] run
  have "stored ?m = drop (length ?ps - length (timestamps ?m)) ?ps"
    and "slot_at (timestamps ?m) (samplesPtr ?m) = Some (Min (set (timestamps ?m)))"
    and "slot_at (timestamps ?m) (samplesPtr ?m - 1) = Some (Max (set (timestamps ?m)))"
    by auto
  then show ?thesis using h1 h3 run by simp
qed

section \<open>Properties of the authentication service\<close>

lemmas store_defs = store_Get_def store_Set_def store_Delete_def db_Get_def db_Put_def
  db_Delete_def

lemma Register_returns_key:
  assumes "Register rnd hashKey io_get io_set s id' = (Inr k, s')"
  shows "id' \<noteq> [] \<and> rnd = Inr k \<and> (\<exists>h. hashKey k = Inr h \<and> s' = s\<lparr>store := (store s)\<lparr>db := (db (store s))(id' \<mapsto> h)\<rparr>\<rparr>)"
  using assms
  by (auto simp: Register_def store_defs
      split: sum.splits option.splits if_splits prod.splits db_error.splits)

lemma Unregister_succeeds:
  assumes "Unregister io_get io_del s id' = (None, s')"
  shows "id' \<noteq> [] \<and> s' = s\<lparr>store := (store s)\<lparr>db := (db (store s))(id' := None)\<rparr>\<rparr>"
  using assms
  by (auto simp: Unregister_def store_defs
      split: sum.splits option.splits if_splits prod.splits db_error.splits)

text \<open>
  Claim C6: if \<open>Register(id)\<close> returns the key \<open>k\<close>, then \<open>Authenticate(id, k)\<close>
  succeeds, \<open>Authenticate(id, k')\<close> fails for every other key \<open>k'\<close>, and after
  \<open>Unregister(id)\<close>, which succeeds, \<open>Authenticate(id, k)\<close> fails with an error that wraps
  \<open>ErrNotFound\<close>. Proved for every store in which the registration succeeds, a fresh
  one included, with no database fault during the later calls. The hash helpers are
  arguments: a hash made from a key verifies that key, and no other key.
\<close>

theorem register_authenticate_roundtrip:
  assumes sound: "\<forall>key h. hashKey key = Inr h \<longrightarrow> compareKeyHash h key"
    and inj: "\<forall>key h key'. hashKey key = Inr h \<and> compareKeyHash h key' \<longrightarrow> key' = key"
    and reg: "Register rnd hashKey io_get io_set s id' = (Inr k, s')"
  shows "Authenticate compareKeyHash None s' id' k = None \<and>
     (\<forall>k' io. k' \<noteq> k \<longrightarrow> Authenticate compareKeyHash io s' id' k' \<noteq> None) \<and>
     (\<exists>s''. Unregister None None s' id' = (None, s'')) \<and>
     (\<forall>io_get' io_del' s''. Unregister io_get' io_del' s' id' = (None, s'') \<longrightarrow>
        (\<exists>err. Authenticate compareKeyHash None s'' id' k = Some err \<and> is_ErrNotFound err))"
proof -
  from Register_returns_key [OF reg]
  obtain h where id: "id' \<noteq> []" and h: "hashKey k = Inr h"
    and s': "s' = s\<lparr>store := (store s)\<lparr>db := (db (store s))(id' \<mapsto> h)\<rparr>\<rparr>"
    by blast
  have get: "store_Get None (store s') id' = Inr h"
    using id by (simp add: s' store_defs)
  have ok: "compareKeyHash h k" using sound h by blast
  have a: "Authenticate compareKeyHash None s' id' k = None"
    using get ok by (simp add: Authenticate_def)
  have b: "Authenticate compareKeyHash io s' id' k' \<noteq> None" if "k' \<noteq> k" for k' io
  proof (cases io)
    case None
    have "\<not> compareKeyHash h k'" using inj h that by blast
    then show ?thesis using get None by (simp add: Authenticate_def)
  next
    case (Some e)
    then show ?thesis using id by (simp add: Authenticate_def store_defs)
  qed
  have c: "\<exists>s''. Unregister None None s' id' = (None, s'')"
    using get id by (simp add: Unregister_def store_defs)
  have d: "\<exists>err. Authenticate compareKeyHash None s'' id' k = Some err \<and> is_ErrNotFound err"
    if "Unregister io_get' io_del' s' id' = (None, s'')" for io_get' io_del' s''
  proof -
    from Unregister_succeeds [OF that]
    have "store_Get None (store s'') id' = Inl ErrNotFound"
      using id by (simp add: store_defs)
    then show ?thesis by (simp add: Authenticate_def is_ErrNotFound_def)
  qed
  from a b c d show ?thesis by blast
qed

theorem register_authenticate_roundtrip_witness:
  "Register (Inr ''k1'') (\<lambda>key. Inr (''h:'' @ key)) None None \<lparr>store = \<lparr>db = Map.empty\<rparr>\<rparr> ''srvA'' =
     (Inr ''k1'', \<lparr>store = \<lparr>db = [''srvA'' \<mapsto> ''h:k1'']\<rparr>\<rparr>) \<and>
   Authenticate (\<lambda>h key. h = ''h:'' @ key) None \<lparr>store = \<lparr>db = [''srvA'' \<mapsto> ''h:k1'']\<rparr>\<rparr> ''srvA'' ''k1'' = None \<and>
   Authenticate (\<lambda>h key. h = ''h:'' @ key) None \<lparr>store = \<lparr>db = [''srvA'' \<mapsto> ''h:k1'']\<rparr>\<rparr> ''srvA'' ''k2'' \<noteq> None \<and>
   Unregister None None \<lparr>store = \<lparr>db = [''srvA'' \<mapsto> ''h:k1'']\<rparr>\<rparr> ''srvA'' =
     (None, \<lparr>store = \<lparr>db = Map.empty\<rparr>\<rparr>) \<and>
   (\<exists>err. Authenticate (\<lambda>h key. h = ''h:'' @ key) None \<lparr>store = \<lparr>db = Map.empty\<rparr>\<rparr> ''srvA'' ''k1'' = Some err
      \<and> is_ErrNotFound err)"
proof -
  let ?hash = "\<lambda>key. Inr (''h:'' @ key) :: string + string"
  let ?cmp = "\<lambda>h key. h = ''h:'' @ key"
  let ?s1 = "\<lparr>store = \<lparr>db = [''srvA'' \<mapsto> ''h:k1'']\<rparr>\<rparr>"
  have h1: "\<forall>key h. ?hash key = Inr h \<longrightarrow> ?cmp h key" by auto
  have h2: "\<forall>key h key'. ?hash key = Inr h \<and> ?cmp h key' \<longrightarrow> key' = key" by auto
  have h3: "Register (Inr ''k1'') ?hash None None \<lparr>store = \<lparr>db = Map.empty\<rparr>\<rparr> ''srvA'' = (Inr ''k1'', ?s1)"
    by (simp add: Register_def store_defs)
  have u: "Unregister None None ?s1 ''srvA'' = (None, \<lparr>store = \<lparr>db = Map.empty\<rparr>\<rparr>)"
    by (simp add: Unregister_def store_defs)
  from register_authenticate_roundtrip [where compareKeyHash = ?cmp and hashKey = ?hash, OF h1 h2 h3]
  have "Authenticate ?cmp None ?s1 ''srvA'' ''k1'' = None"
    and "Authenticate ?cmp None ?s1 ''srvA'' ''k2'' \<noteq> None"
    and "\<exists>err. Authenticate ?cmp None \<lparr>store = \<lparr>db = Map.empty\<rparr>\<rparr> ''srvA'' ''k1'' = Some err
      \<and> is_ErrNotFound err"
    using u by auto
  then show ?thesis using h3 u by simp
qed

text \<open>
  Claim C7: for an id already present in the store, \<open>Register(id)\<close> returns an error and
  leaves the store as it was, whatever the key helpers and the database would answer.
\<close>

theorem register_existing_fails:
  assumes "db (store s) id' = Some h"
  shows "\<exists>err. Register rnd hashKey io_get io_set s id' = (Inl err, s)"
  using assms
  by (cases io_get) (auto simp: Register_def store_defs)

theorem register_existing_fails_witness:
  "db (store \<lparr>store = \<lparr>db = [''srvA'' \<mapsto> ''h:k1'']\<rparr>\<rparr>) ''srvA'' = Some ''h:k1'' \<and>
   Register (Inr ''k2'') (\<lambda>key. Inr (''h:'' @ key)) None None
       \<lparr>store = \<lparr>db = [''srvA'' \<mapsto> ''h:k1'']\<rparr>\<rparr> ''srvA'' =
     (Inl AlreadyRegistered, \<lparr>store = \<lparr>db = [''srvA'' \<mapsto> ''h:k1'']\<rparr>\<rparr>)"
proof -
  have h: "db (store \<lparr>store = \<lparr>db = [''srvA'' \<mapsto> ''h:k1'']\<rparr>\<rparr>) ''srvA'' = Some ''h:k1''"
    by simp
  from register_existing_fails [OF h, of "Inr ''k2''" "\<lambda>key. Inr (''h:'' @ key)" None None]
  show ?thesis using h by (simp add: Register_def store_defs)
qed

section \<open>Properties of the session\<close>

lemma sendOffer_cases:
  assumes "rtcConn (sess w) = Some pc" "\<not> is_closed (sdpOutCh w)"
  shows "\<exists>e w1 pc1. sendOffer oe w = Some (e, w1) \<and> (e = None \<longleftrightarrow> offer_sent oe (sdpOutCh w)) \<and>
           metrics w1 = metrics w \<and> logs w1 = logs w \<and>
           senders pc1 = senders pc \<and> sess w1 = (sess w)\<lparr>rtcConn := Some pc1\<rparr>"
proof -
  have "Some pc = rtcConn (sess w)" using assms(1) by simp
  then have same: "(sess w)\<lparr>rtcConn := Some pc\<rparr> = sess w" by simp
  let ?P = "\<lambda>e w1 pc1. sendOffer oe w = Some (e, w1) \<and> (e = None \<longleftrightarrow> offer_sent oe (sdpOutCh w)) \<and>
           metrics w1 = metrics w \<and> logs w1 = logs w \<and>
           senders pc1 = senders pc \<and> sess w1 = (sess w)\<lparr>rtcConn := Some pc1\<rparr>"
  show ?thesis
  proof (cases "CreateOffer_result oe")
    case (Inl e)
    then have "?P (Some (''failed to create offer: '' @ e)) w pc"
      using assms same by (simp add: sendOffer_def offer_sent_def)
    then show ?thesis by blast
  next
    case cr: (Inr sd)
    show ?thesis
    proof (cases "SetLocalDescription_error oe")
      case (Some e)
      then have "?P (Some (''failed to set local description: '' @ e)) w pc"
        using assms same cr by (simp add: sendOffer_def offer_sent_def)
      then show ?thesis by blast
    next
      case sl: None
      let ?pc1 = "pc\<lparr>signalingState := HaveLocalOffer\<rparr>"
      let ?w1 = "w\<lparr>sess := (sess w)\<lparr>rtcConn := Some ?pc1\<rparr>\<rparr>"
      show ?thesis
      proof (cases "Marshal_result oe")
        case (Inl e)
        then have "?P (Some (''failed to marshal sdp: '' @ e)) ?w1 ?pc1"
          using assms cr sl by (simp add: sendOffer_def offer_sent_def)
        then show ?thesis by blast
      next
        case ma: (Inr sdp)
        show ?thesis
        proof (cases "length (buf (sdpOutCh w)) < capacity (sdpOutCh w)")
          case True
          then have "?P None (?w1\<lparr>sdpOutCh := (sdpOutCh w)\<lparr>buf := buf (sdpOutCh w) @
                        [newMessage (sess ?w1) SDPMessage sdp]\<rparr>\<rparr>) ?pc1"
            using assms cr sl ma by (simp add: sendOffer_def offer_sent_def select_send_def)
          then show ?thesis by blast
        next
          case False
          then have "?P (Some ''failed to send SDP message: channel is full'') ?w1 ?pc1"
            using assms cr sl ma by (simp add: sendOffer_def offer_sent_def select_send_def)
          then show ?thesis by blast
        qed
      qed
    qed
  qed
qed

lemma addTrack_negotiate_cases:
  assumes pc: "rtcConn (sess w) = Some pc" and ch: "\<not> is_closed (sdpOutCh w)"
  shows "\<exists>errRet w3 pc3. addTrack_negotiate env sender track w = Some (errRet, w3) \<and>
     (errRet \<noteq> None \<longleftrightarrow>
        \<not> offer_sent (offer env) (sdpOutCh w) \<or> event env = TimedOut \<or>
        (is_answer (event env) \<and> SetRemoteDescription_error env \<noteq> None)) \<and>
     metrics w3 = metrics w \<and> rtcConn (sess w3) = Some pc3 \<and> senders pc3 = senders pc \<and>
     cfg (sess w3) = cfg (sess w) \<and>
     screenTrackSender (sess w3) =
       (if errRet = None \<and> is_answer (event env) \<and> track_Kind track = RTPCodecTypeVideo
        then Some sender else screenTrackSender (sess w))"
proof -
  from sendOffer_cases [OF pc ch, of "offer env"]
  obtain e w1 pc1 where so: "sendOffer (offer env) w = Some (e, w1)"
    and e: "e = None \<longleftrightarrow> offer_sent (offer env) (sdpOutCh w)"
    and m: "metrics w1 = metrics w" and s1: "senders pc1 = senders pc"
    and w1: "sess w1 = (sess w)\<lparr>rtcConn := Some pc1\<rparr>"
    by blast
  show ?thesis
  proof (cases e)
    case (Some msg)
    then show ?thesis
      using so e m s1 w1 by (simp add: addTrack_negotiate_def)
  next
    case None
    show ?thesis
    proof (cases "event env")
      case (AnswerReceived answer)
      then show ?thesis
        using so e m s1 w1 None
        by (cases "SetRemoteDescription_error env")
           (simp_all add: addTrack_negotiate_def is_answer_def Let_def)
    next
      case AnswerChClosed
      then show ?thesis
        using so e m s1 w1 None by (simp add: addTrack_negotiate_def is_answer_def)
    next
      case TimedOut
      then show ?thesis
        using so e m s1 w1 None by (simp add: addTrack_negotiate_def is_answer_def)
    next
      case SessionClosed
      then show ?thesis
        using so e m s1 w1 None by (simp add: addTrack_negotiate_def is_answer_def wlog_def)
    qed
  qed
qed

lemma Dec_Inc_RTPTracks: "DecRTPTracks (IncRTPTracks m g d t) g d t = m"
  by (simp add: DecRTPTracks_def IncRTPTracks_def)

lemma detached_after_replace:
  assumes "\<forall>snd'\<in>set xs. sender_Track snd' \<noteq> Some track"
  shows "\<forall>snd'\<in>set (senders (set_sender_track h None
            (pc\<lparr>senders := xs @ [\<lparr>sender_handle = h, sender_Track = Some track\<rparr>]\<rparr>))).
           sender_Track snd' \<noteq> Some track"
  using assms by (auto simp: set_sender_track_def)

lemmas addTrack_eval = addTrack_def addTrack_negotiate_def addTrack_cleanup_def sendOffer_def
  select_send_def newMessage_def wlog_def IncRTPTracks_def DecRTPTracks_def getTrackType_def
  set_sender_track_def Let_def idle_world_def idle_session_def screen_track_def good_offer_def
  make_chan_def

text \<open>
  Claim C4, as the specification states it: when \<open>addTrack\<close> has attached the track and
  then fails, the track is detached and the outbound RTP-tracks metric decremented;
  when it completes successfully for a video track, the sender is stored as
  \<open>screenTrackSender\<close>. Neither holds in every run. When the signaling times out and
  \<open>ReplaceTrack(nil)\<close> itself fails, the track stays attached and the metric stays
  incremented; when \<open>closeCh\<close> is closed during the wait, \<open>addTrack\<close> returns no error
  for a video track and \<open>screenTrackSender\<close> stays unset.
\<close>

theorem addTrack_counterexample:
  "addTrack
     \<lparr>AddTrack_result = Inr 7, offer = good_offer, event = TimedOut,
      SetRemoteDescription_error = None, ReplaceTrack_error = Some ''closed''\<rparr>
     idle_world (Some screen_track)
   = Some (Some ''timed out signaling'',
       idle_world\<lparr>
         sess := (idle_session ''s'')\<lparr>rtcConn := Some \<lparr>signalingState = HaveLocalOffer,
                   senders = [\<lparr>sender_handle = 7, sender_Track = Some screen_track\<rparr>]\<rparr>\<rparr>,
         metrics := \<lparr>rtpTracks = (\<lambda>_. 0)((''g'', ''out'', ''video'') := 1)\<rparr>,
         logs := [(Debug, ''addTrack''), (Error, ''failed to replace track'')],
         sdpOutCh := \<lparr>buf = [\<lparr>SessionID = ''s'', GroupID = ''g'', CallID = ''c'',
                                Type = SDPMessage, Data = ''{}''\<rparr>],
                      capacity = 256, is_closed = False\<rparr>\<rparr>)
   \<and>
   addTrack
     \<lparr>AddTrack_result = Inr 7, offer = good_offer, event = SessionClosed,
      SetRemoteDescription_error = None, ReplaceTrack_error = None\<rparr>
     idle_world (Some screen_track)
   = Some (None,
       idle_world\<lparr>
         sess := (idle_session ''s'')\<lparr>rtcConn := Some \<lparr>signalingState = HaveLocalOffer,
                   senders = [\<lparr>sender_handle = 7, sender_Track = Some screen_track\<rparr>]\<rparr>,
                   screenTrackSender := None\<rparr>,
         metrics := \<lparr>rtpTracks = (\<lambda>_. 0)((''g'', ''out'', ''video'') := 1)\<rparr>,
         logs := [(Debug, ''addTrack''), (Debug, ''closeCh closed during signaling'')],
         sdpOutCh := \<lparr>buf = [\<lparr>SessionID = ''s'', GroupID = ''g'', CallID = ''c'',
                                Type = SDPMessage, Data = ''{}''\<rparr>],
                      capacity = 256, is_closed = False\<rparr>\<rparr>)"
  by (simp add: addTrack_eval)

text \<open>
  Claim C4, amended: when \<open>addTrack\<close> has attached the track (the session has a peer
  connection, no sender carries the track yet, no screen sender is set for a video
  track, \<open>AddTrack\<close> succeeds) it returns, with \<open>makingOffer\<close> false again, and it
  returns an error exactly when the offer does not go out, the signaling times out, or
  \<open>SetRemoteDescription\<close> rejects the answer. On an error, \<open>ReplaceTrack(nil)\<close> is tried:
  when it succeeds the track is detached and the metric is back at its value before
  the call; when it fails an error is logged, the track stays attached and the metric
  stays incremented. With no error, for a video track, the sender is stored as
  \<open>screenTrackSender\<close> when an answer was received and applied, and the field is left
  unset when the answer channel or \<open>closeCh\<close> was closed instead.
\<close>

theorem addTrack_attached_outcomes:
  assumes pc: "rtcConn (sess w) = Some pc"
    and fresh: "\<forall>snd'\<in>set (senders pc). sender_Track snd' \<noteq> Some track"
    and free: "track_Kind track = RTPCodecTypeVideo \<longrightarrow> screenTrackSender (sess w) = None"
    and attach: "AddTrack_result env = Inr sender"
    and ch: "\<not> is_closed (sdpOutCh w)"
  shows "\<exists>errRet w'. addTrack env w (Some track) = Some (errRet, w') \<and>
     (errRet \<noteq> None \<longleftrightarrow>
        \<not> offer_sent (offer env) (sdpOutCh w) \<or> event env = TimedOut \<or>
        (is_answer (event env) \<and> SetRemoteDescription_error env \<noteq> None)) \<and>
     \<not> makingOffer (sess w') \<and>
     (errRet \<noteq> None \<and> ReplaceTrack_error env = None \<longrightarrow>
        \<not> track_attached (sess w') track \<and> metrics w' = metrics w) \<and>
     (errRet \<noteq> None \<and> ReplaceTrack_error env \<noteq> None \<longrightarrow>
        track_attached (sess w') track \<and>
        metrics w' = IncRTPTracks (metrics w) (cfg_GroupID (cfg (sess w))) ''out''
                       (getTrackType (track_Kind track)) \<and>
        (Error, ''failed to replace track'') \<in> set (logs w')) \<and>
     (errRet = None \<and> track_Kind track = RTPCodecTypeVideo \<longrightarrow>
        screenTrackSender (sess w') = (if is_answer (event env) then Some sender else None))"
proof -
  let ?new = "\<lparr>sender_handle = sender, sender_Track = Some track\<rparr>"
  let ?pc' = "pc\<lparr>senders := senders pc @ [?new]\<rparr>"
  let ?g = "cfg_GroupID (cfg (sess w))" and ?t = "getTrackType (track_Kind track)"
  define w2 where "w2 =
     (let w0 = wlog Debug ''addTrack'' w;
          w1 = w0\<lparr>sess := (sess w0)\<lparr>makingOffer := True\<rparr>\<rparr>
      in w1\<lparr>sess := (sess w1)\<lparr>rtcConn := Some ?pc'\<rparr>,
            metrics := IncRTPTracks (metrics w1) (cfg_GroupID (cfg (sess w1))) ''out'' ?t\<rparr>)"
  have nofound: "\<not> (\<exists>snd'\<in>set (senders pc). sender_Track snd' = Some track)"
    using fresh by blast
  have step: "addTrack env w (Some track) =
      (case addTrack_negotiate env sender track w2 of
         None \<Rightarrow> None
       | Some (errRet, w3) \<Rightarrow>
           Some (errRet, (addTrack_cleanup env errRet sender track w3)
                   \<lparr>sess := (sess (addTrack_cleanup env errRet sender track w3))\<lparr>makingOffer := False\<rparr>\<rparr>))"
  proof (cases "track_Kind track = RTPCodecTypeVideo")
    case True
    with free have "screenTrackSender (sess w) = None" by simp
    then show ?thesis
      using pc nofound attach True
      by (auto simp: addTrack_def Let_def wlog_def w2_def split: option.split)
  next
    case False
    then show ?thesis
      using pc nofound attach
      by (auto simp: addTrack_def Let_def wlog_def w2_def split: option.split)
  qed
  have pc2: "rtcConn (sess w2) = Some ?pc'" and ch2: "\<not> is_closed (sdpOutCh w2)"
    and m2: "metrics w2 = IncRTPTracks (metrics w) ?g ''out'' ?t"
    and o2: "sdpOutCh w2 = sdpOutCh w" and c2: "cfg (sess w2) = cfg (sess w)"
    and t2: "screenTrackSender (sess w2) = screenTrackSender (sess w)"
    using ch by (simp_all add: w2_def wlog_def Let_def)
  from addTrack_negotiate_cases [OF pc2 ch2, of env sender track]
  obtain errRet w3 pc3 where n: "addTrack_negotiate env sender track w2 = Some (errRet, w3)"
    and err: "errRet \<noteq> None \<longleftrightarrow>
        \<not> offer_sent (offer env) (sdpOutCh w2) \<or> event env = TimedOut \<or>
        (is_answer (event env) \<and> SetRemoteDescription_error env \<noteq> None)"
    and m3: "metrics w3 = metrics w2" and pc3: "rtcConn (sess w3) = Some pc3"
    and s3: "senders pc3 = senders ?pc'" and c3: "cfg (sess w3) = cfg (sess w2)"
    and st3: "screenTrackSender (sess w3) =
       (if errRet = None \<and> is_answer (event env) \<and> track_Kind track = RTPCodecTypeVideo
        then Some sender else screenTrackSender (sess w2))"
    by blast
  define w' where "w' = (addTrack_cleanup env errRet sender track w3)
                   \<lparr>sess := (sess (addTrack_cleanup env errRet sender track w3))\<lparr>makingOffer := False\<rparr>\<rparr>"
  have res: "addTrack env w (Some track) = Some (errRet, w')"
    by (simp add: step n w'_def)
  have e1: "errRet \<noteq> None \<longleftrightarrow>
        \<not> offer_sent (offer env) (sdpOutCh w) \<or> event env = TimedOut \<or>
        (is_answer (event env) \<and> SetRemoteDescription_error env \<noteq> None)"
    using err by (simp add: o2)
  have e2: "\<not> makingOffer (sess w')" by (simp add: w'_def)
  have att3: "track_attached (sess w3) track"
    using pc3 s3 by (simp add: track_attached_def)
  have e3: "\<not> track_attached (sess w') track \<and> metrics w' = metrics w"
    if "errRet \<noteq> None" "ReplaceTrack_error env = None"
  proof -
    have "pc3 = ?pc'\<lparr>signalingState := signalingState pc3\<rparr>" using s3 by simp
    then have "\<forall>snd'\<in>set (senders (set_sender_track sender None pc3)). sender_Track snd' \<noteq> Some track"
      using detached_after_replace [OF fresh, of sender "pc\<lparr>signalingState := signalingState pc3\<rparr>"]
      by (simp add: set_sender_track_def s3)
    then show ?thesis
      using that pc3 m3 c3
      by (auto simp: w'_def addTrack_cleanup_def track_attached_def m2 c2 Dec_Inc_RTPTracks)
  qed
  have e4: "track_attached (sess w') track \<and>
        metrics w' = IncRTPTracks (metrics w) ?g ''out'' ?t \<and>
        (Error, ''failed to replace track'') \<in> set (logs w')"
    if "errRet \<noteq> None" "ReplaceTrack_error env \<noteq> None"
    using that att3 m3
    by (auto simp: w'_def addTrack_cleanup_def wlog_def track_attached_def m2)
  have e5: "screenTrackSender (sess w') = (if is_answer (event env) then Some sender else None)"
    if "errRet = None" "track_Kind track = RTPCodecTypeVideo"
    using that st3 free by (simp add: w'_def addTrack_cleanup_def t2)
  show ?thesis
  proof (intro exI conjI)
    show "addTrack env w (Some track) = Some (errRet, w')" by (rule res)
  qed (use e1 e2 e3 e4 e5 in simp_all)
qed

theorem addTrack_attached_outcomes_witness:
  "rtcConn (sess idle_world) = Some \<lparr>signalingState = Stable, senders = []\<rparr> \<and>
   \<not> is_closed (sdpOutCh idle_world) \<and>
   (\<exists>errRet w'.
      addTrack \<lparr>AddTrack_result = Inr 7, offer = good_offer, event = TimedOut,
                SetRemoteDescription_error = None, ReplaceTrack_error = None\<rparr>
        idle_world (Some screen_track) = Some (errRet, w') \<and>
      errRet \<noteq> None \<and> \<not> makingOffer (sess w') \<and>
      \<not> track_attached (sess w') screen_track \<and> metrics w' = metrics idle_world) \<and>
   (\<exists>w'.
      addTrack \<lparr>AddTrack_result = Inr 7, offer = good_offer,
                event = AnswerReceived \<lparr>sdp_Type = SDPTypeAnswer, sdp_SDP = ''v=0''\<rparr>,
                SetRemoteDescription_error = None, ReplaceTrack_error = None\<rparr>
        idle_world (Some screen_track) = Some (None, w') \<and>
      \<not> makingOffer (sess w') \<and> screenTrackSender (sess w') = Some 7)"
proof -
  let ?pc = "\<lparr>signalingState = Stable, senders = []\<rparr>"
  let ?env1 = "\<lparr>AddTrack_result = Inr 7, offer = good_offer, event = TimedOut,
                SetRemoteDescription_error = None, ReplaceTrack_error = None\<rparr>"
  let ?env2 = "\<lparr>AddTrack_result = Inr 7, offer = good_offer,
                event = AnswerReceived \<lparr>sdp_Type = SDPTypeAnswer, sdp_SDP = ''v=0''\<rparr>,
                SetRemoteDescription_error = None, ReplaceTrack_error = None\<rparr>"
  have h1: "rtcConn (sess idle_world) = Some ?pc"
    by (simp add: idle_world_def idle_session_def)
  have h2: "\<forall>snd'\<in>set (senders ?pc). sender_Track snd' \<noteq> Some screen_track" by simp
  have h3: "track_Kind screen_track = RTPCodecTypeVideo \<longrightarrow> screenTrackSender (sess idle_world) = None"
    by (simp add: idle_world_def idle_session_def)
  have h5: "\<not> is_closed (sdpOutCh idle_world)" by (simp add: idle_world_def make_chan_def)
  have sent: "offer_sent good_offer (sdpOutCh idle_world)"
    by (simp add: offer_sent_def good_offer_def idle_world_def make_chan_def)
  have video: "track_Kind screen_track = RTPCodecTypeVideo" by (simp add: screen_track_def)
  have a: "AddTrack_result ?env1 = Inr 7" and b: "AddTrack_result ?env2 = Inr 7" by simp_all
  from addTrack_attached_outcomes [OF h1 h2 h3 a h5]
  have r1: "\<exists>errRet w'. addTrack ?env1 idle_world (Some screen_track) = Some (errRet, w') \<and>
      errRet \<noteq> None \<and> \<not> makingOffer (sess w') \<and>
      \<not> track_attached (sess w') screen_track \<and> metrics w' = metrics idle_world"
    by auto
  from addTrack_attached_outcomes [OF h1 h2 h3 b h5]
  obtain errRet w' where r: "addTrack ?env2 idle_world (Some screen_track) = Some (errRet, w')"
    and e: "errRet \<noteq> None \<longleftrightarrow>
        \<not> offer_sent (offer ?env2) (sdpOutCh idle_world) \<or> event ?env2 = TimedOut \<or>
        (is_answer (event ?env2) \<and> SetRemoteDescription_error ?env2 \<noteq> None)"
    and m: "\<not> makingOffer (sess w')"
    and st: "errRet = None \<and> track_Kind screen_track = RTPCodecTypeVideo \<longrightarrow>
        screenTrackSender (sess w') = (if is_answer (event ?env2) then Some 7 else None)"
    by blast
  from e sent have "errRet = None" by simp
  with r m st video have r2: "\<exists>w'. addTrack ?env2 idle_world (Some screen_track) = Some (None, w') \<and>
      \<not> makingOffer (sess w') \<and> screenTrackSender (sess w') = Some 7"
    by (auto simp: is_answer_def)
  from h1 h5 r1 r2 show ?thesis by blast
qed

section \<open>Properties of the message pump\<close>

lemma msgReader_step_found:
  assumes "Message_IsValid msg = None" "sessions s (SessionID msg) = Some c'"
    "lookup_call s c' = Some cl" "call_sessions cl (cfg_SessionID c') = Some se"
  shows "msgReader_step env s msg = dispatch env s c' cl se msg"
  using assms
  by (auto simp: msgReader_step_def lookup_call_def getSession_def split: option.splits)

lemma msgReader_step_not_found:
  assumes "Message_IsValid msg \<noteq> None \<or> sessions s (SessionID msg) = None \<or>
     (\<exists>c'. sessions s (SessionID msg) = Some c' \<and> lookup_session s c' = None)"
  shows "fst (msgReader_step env s msg) = Continue"
  using assms
  by (auto simp: msgReader_step_def lookup_session_def lookup_call_def split: option.splits)

lemma lookup_put_call:
  assumes "lookup_call s c' = Some cl"
  shows "lookup_call (put_call s c' cl') c' = Some cl'"
  using assms
  by (auto simp: lookup_call_def put_call_def getGroup_def getCall_def split: option.splits)

lemma lookup_call_slog [simp]: "lookup_call (slog lvl m s) c' = lookup_call s c'"
  by (simp add: lookup_call_def slog_def getGroup_def)

text \<open>
  The guard of \<open>hasSignalingConflict\<close>: with a peer connection the conflict is the
  disjunction of the two conditions; a session without one reports no conflict.
\<close>

lemma hasSignalingConflict_cases:
  "hasSignalingConflict se \<longleftrightarrow>
     (\<exists>pc. rtcConn se = Some pc \<and> (makingOffer se \<or> signalingState pc \<noteq> Stable))"
  by (cases "rtcConn se") (simp_all add: hasSignalingConflict_def)

lemmas pump_eval = msgReader_step_def dispatch_def dispatch_sdp_def dispatch_screen_on_def
  dispatch_mute_def Message_IsValid_def getGroup_def getCall_def getSession_def
  setScreenSession_def put_call_def put_session_def map_get_def slog_def select_send_def
  hasSignalingConflict_def lookup_call_def lookup_session_def chan_full_def
  one_call_server_def no_json_def idle_session_def make_chan_def Send_def Let_def

text \<open>
  Claim C5: an SDP offer dispatched while the session is making an offer, or while its
  peer connection is not in the stable state, is ignored: the iteration only writes
  two debug entries to the log, so that no session, no peer connection and no channel
  changes and nothing is queued for the outbound channel. The session has a peer
  connection, as every session created by \<open>addSession\<close> has.
\<close>

theorem colliding_offer_ignored:
  assumes valid: "Message_IsValid msg = None"
    and idx: "sessions s (SessionID msg) = Some c'"
    and cl: "lookup_call s c' = Some cl"
    and se: "call_sessions cl (cfg_SessionID c') = Some se"
    and kind: "Type msg = SDPMessage"
    and sdp: "unmarshal_sdp env (Data msg) = Some sdp" "sdp_Type sdp = SDPTypeOffer"
    and conn: "rtcConn se = Some pc"
    and conflict: "makingOffer se \<or> signalingState pc \<noteq> Stable"
  shows "msgReader_step env s msg =
     (Continue, s\<lparr>srv_log := srv_log s @
        [(Debug, ''signaling''), (Debug, ''signaling conflict detected, ignoring offer'')]\<rparr>)"
proof -
  have "hasSignalingConflict se"
    using conn conflict by (simp add: hasSignalingConflict_def)
  then show ?thesis
    unfolding msgReader_step_found [OF valid idx cl se]
    using kind sdp by (simp add: dispatch_def dispatch_sdp_def slog_def Let_def)
qed

theorem colliding_offer_ignored_witness:
  "msgReader_step
     (no_json\<lparr>unmarshal_sdp := (\<lambda>_. Some \<lparr>sdp_Type = SDPTypeOffer, sdp_SDP = ''v=0''\<rparr>)\<rparr>)
     (one_call_server [''s'' \<mapsto> (idle_session ''s'')\<lparr>makingOffer := True\<rparr>] None)
     \<lparr>SessionID = ''s'', GroupID = ''g'', CallID = ''c'', Type = SDPMessage, Data = ''offer''\<rparr> =
   (Continue,
    (one_call_server [''s'' \<mapsto> (idle_session ''s'')\<lparr>makingOffer := True\<rparr>] None)
      \<lparr>srv_log := [(Debug, ''signaling''),
                   (Debug, ''signaling conflict detected, ignoring offer'')]\<rparr>)"
proof -
  let ?se = "(idle_session ''s'')\<lparr>makingOffer := True\<rparr>"
  let ?s = "one_call_server [''s'' \<mapsto> ?se] None"
  let ?msg = "\<lparr>SessionID = ''s'', GroupID = ''g'', CallID = ''c'', Type = SDPMessage, Data = ''offer''\<rparr>"
  let ?env = "no_json\<lparr>unmarshal_sdp := (\<lambda>_. Some \<lparr>sdp_Type = SDPTypeOffer, sdp_SDP = ''v=0''\<rparr>)\<rparr>"
  let ?cl = "\<lparr>call_id = ''c'', call_sessions = [''s'' \<mapsto> ?se], screenSession = None\<rparr>"
  have h1: "Message_IsValid ?msg = None" by (simp add: Message_IsValid_def)
  have h2: "sessions ?s (SessionID ?msg) = Some (cfg ?se)" by (simp add: one_call_server_def)
  have h3: "lookup_call ?s (cfg ?se) = Some ?cl"
    by (simp add: pump_eval)
  have h4: "call_sessions ?cl (cfg_SessionID (cfg ?se)) = Some ?se" by (simp add: idle_session_def)
  have h5: "Type ?msg = SDPMessage" by simp
  have h6: "unmarshal_sdp ?env (Data ?msg) = Some \<lparr>sdp_Type = SDPTypeOffer, sdp_SDP = ''v=0''\<rparr>"
    by simp
  have h7: "sdp_Type \<lparr>sdp_Type = SDPTypeOffer, sdp_SDP = ''v=0''\<rparr> = SDPTypeOffer" by simp
  have h8: "rtcConn ?se = Some \<lparr>signalingState = Stable, senders = []\<rparr>"
    by (simp add: idle_session_def)
  have h9: "makingOffer ?se \<or> signalingState \<lparr>signalingState = Stable, senders = []\<rparr> \<noteq> Stable"
    by simp
  from colliding_offer_ignored [OF h1 h2 h3 h4 h5 h6 h7 h8 h9]
  show ?thesis by (simp add: one_call_server_def)
qed

text \<open>
  Claim C8: every channel write of the server is a \<open>select\<close> with a \<open>default\<close> case and
  never waits. On a full channel the send takes the \<open>default\<close> case: \<open>Send\<close> returns an
  error and queues nothing, and the pump, for an ICE message, an SDP offer or an SDP
  answer whose session channel is full, only logs an error and goes on to the next
  message; the session and its channels are as before.
\<close>

theorem full_channel_writes_drop:
  assumes valid: "Message_IsValid msg = None"
    and idx: "sessions s (SessionID msg) = Some c'"
    and cl: "lookup_call s c' = Some cl"
    and se: "call_sessions cl (cfg_SessionID c') = Some se"
  shows "(select_send ch v = WouldBlock \<longleftrightarrow> chan_full ch) \<and>
     (chan_full (sendCh s) \<longrightarrow>
        Send s m = Some (Some ''failed to send rtc message, channel is full'', s)) \<and>
     (Type msg = ICEMessage \<and> chan_full (iceInCh se) \<longrightarrow>
        msgReader_step env s msg =
          (Continue, slog Error ''failed to send sdp message: channel is full'' s)) \<and>
     (Type msg = SDPMessage \<and> unmarshal_sdp env (Data msg) = Some sdp \<and>
      sdp_Type sdp = SDPTypeOffer \<and> \<not> hasSignalingConflict se \<and> chan_full (sdpOfferInCh se) \<longrightarrow>
        msgReader_step env s msg =
          (Continue, slog Error ''failed to send sdp message: channel is full''
                       (slog Debug ''signaling'' s))) \<and>
     (Type msg = SDPMessage \<and> unmarshal_sdp env (Data msg) = Some sdp \<and>
      sdp_Type sdp = SDPTypeAnswer \<and> chan_full (sdpAnswerInCh se) \<longrightarrow>
        msgReader_step env s msg =
          (Continue, slog Error ''failed to send sdp message: channel is full''
                       (slog Debug ''signaling'' s)))"
proof -
  have block: "select_send c x = WouldBlock \<longleftrightarrow> chan_full c" for c :: "'c chan" and x
    by (simp add: select_send_def chan_full_def)
  have a: "chan_full (sendCh s) \<longrightarrow>
        Send s m = Some (Some ''failed to send rtc message, channel is full'', s)"
    by (simp add: Send_def select_send_def chan_full_def)
  have b: "Type msg = ICEMessage \<and> chan_full (iceInCh se) \<longrightarrow>
        msgReader_step env s msg =
          (Continue, slog Error ''failed to send sdp message: channel is full'' s)"
    unfolding msgReader_step_found [OF valid idx cl se]
    by (simp add: dispatch_def select_send_def chan_full_def)
  have c: "Type msg = SDPMessage \<and> unmarshal_sdp env (Data msg) = Some sdp \<and>
      sdp_Type sdp = SDPTypeOffer \<and> \<not> hasSignalingConflict se \<and> chan_full (sdpOfferInCh se) \<longrightarrow>
        msgReader_step env s msg =
          (Continue, slog Error ''failed to send sdp message: channel is full''
                       (slog Debug ''signaling'' s))"
    unfolding msgReader_step_found [OF valid idx cl se]
    by (simp add: dispatch_def dispatch_sdp_def select_send_def chan_full_def Let_def)
  have d: "Type msg = SDPMessage \<and> unmarshal_sdp env (Data msg) = Some sdp \<and>
      sdp_Type sdp = SDPTypeAnswer \<and> chan_full (sdpAnswerInCh se) \<longrightarrow>
        msgReader_step env s msg =
          (Continue, slog Error ''failed to send sdp message: channel is full''
                       (slog Debug ''signaling'' s))"
    unfolding msgReader_step_found [OF valid idx cl se]
    by (simp add: dispatch_def dispatch_sdp_def select_send_def chan_full_def Let_def)
  from block [of ch v] a b c d show ?thesis by blast
qed

theorem full_channel_writes_drop_witness:
  "chan_full \<lparr>buf = [''x''], capacity = 1, is_closed = False\<rparr> \<and>
   msgReader_step no_json
     (one_call_server
        [''s'' \<mapsto> (idle_session ''s'')\<lparr>iceInCh := \<lparr>buf = [''x''], capacity = 1, is_closed = False\<rparr>\<rparr>]
        None)
     \<lparr>SessionID = ''s'', GroupID = ''g'', CallID = ''c'', Type = ICEMessage, Data = ''y''\<rparr> =
   (Continue,
    slog Error ''failed to send sdp message: channel is full''
      (one_call_server
        [''s'' \<mapsto> (idle_session ''s'')\<lparr>iceInCh := \<lparr>buf = [''x''], capacity = 1, is_closed = False\<rparr>\<rparr>]
        None))"
proof -
  let ?se = "(idle_session ''s'')\<lparr>iceInCh := \<lparr>buf = [''x''], capacity = 1, is_closed = False\<rparr>\<rparr>"
  let ?s = "one_call_server [''s'' \<mapsto> ?se] None"
  let ?msg = "\<lparr>SessionID = ''s'', GroupID = ''g'', CallID = ''c'', Type = ICEMessage, Data = ''y''\<rparr>"
  let ?cl = "\<lparr>call_id = ''c'', call_sessions = [''s'' \<mapsto> ?se], screenSession = None\<rparr>"
  have h1: "Message_IsValid ?msg = None" by (simp add: Message_IsValid_def)
  have h2: "sessions ?s (SessionID ?msg) = Some (cfg ?se)" by (simp add: one_call_server_def)
  have h3: "lookup_call ?s (cfg ?se) = Some ?cl" by (simp add: pump_eval)
  have h4: "call_sessions ?cl (cfg_SessionID (cfg ?se)) = Some ?se" by (simp add: idle_session_def)
  have full: "chan_full (iceInCh ?se)" by (simp add: chan_full_def)
  from full_channel_writes_drop
         [OF h1 h2 h3 h4, where env = no_json and ch = "iceInCh ?se" and v = "''y''" and m = ?msg
          and sdp = "\<lparr>sdp_Type = SDPTypeOffer, sdp_SDP = ''v=0''\<rparr>"] full
  have "msgReader_step no_json ?s ?msg =
          (Continue, slog Error ''failed to send sdp message: channel is full'' ?s)"
    by simp
  then show ?thesis by (simp add: chan_full_def)
qed

text \<open>
  Claim C9: on a \<open>ScreenOn\<close> message the session's \<open>screenStreamID\<close> is assigned from
  the payload first and the election runs on the call that already holds the new
  value. When another session holds the screen slot the election fails: an error is
  logged, the slot keeps its holder, and the session keeps the new \<open>screenStreamID\<close>.
\<close>

theorem screen_on_assigns_before_election:
  assumes valid: "Message_IsValid msg = None"
    and idx: "sessions s (SessionID msg) = Some c'"
    and cl: "lookup_call s c' = Some cl"
    and se: "call_sessions cl (cfg_SessionID c') = Some se"
    and kind: "Type msg = ScreenOnMessage"
    and payload: "unmarshal_screen env (Data msg) = Some data"
  shows "\<exists>s' cl'. msgReader_step env s msg = (Continue, s') \<and>
     lookup_call s' c' = Some cl' \<and>
     (screenSession cl', cl') =
       (let assigned = cl\<lparr>call_sessions := (call_sessions cl)(cfg_SessionID c' \<mapsto>
                            se\<lparr>screenStreamID := map_get data ''screenStreamID''\<rparr>)\<rparr>
        in (screenSession (snd (setScreenSession assigned (cfg_SessionID c'))),
            snd (setScreenSession assigned (cfg_SessionID c')))) \<and>
     lookup_session s' c' = Some (se\<lparr>screenStreamID := map_get data ''screenStreamID''\<rparr>) \<and>
     (case screenSession cl of
        None \<Rightarrow>
          screenSession cl' = Some (cfg_SessionID c') \<and>
          srv_log s' = srv_log s @ [(Debug, ''received screen sharing stream ID'')]
      | Some holder \<Rightarrow>
          screenSession cl' = Some holder \<and>
          srv_log s' = srv_log s @ [(Debug, ''received screen sharing stream ID''),
                                    (Error, ''screen session should not be set'')])"
proof -
  let ?se1 = "se\<lparr>screenStreamID := map_get data ''screenStreamID''\<rparr>"
  let ?cl1 = "cl\<lparr>call_sessions := (call_sessions cl)(cfg_SessionID c' \<mapsto> ?se1)\<rparr>"
  let ?s1 = "slog Debug ''received screen sharing stream ID'' s"
  have l1: "lookup_call ?s1 c' = Some cl" using cl by simp
  show ?thesis
  proof (cases "screenSession cl")
    case None
    let ?cl2 = "?cl1\<lparr>screenSession := Some (cfg_SessionID c')\<rparr>"
    have step: "msgReader_step env s msg = (Continue, put_call ?s1 c' ?cl2)"
      unfolding msgReader_step_found [OF valid idx cl se]
      using kind payload None
      by (simp add: dispatch_def dispatch_screen_on_def setScreenSession_def Let_def)
    have lk: "lookup_call (put_call ?s1 c' ?cl2) c' = Some ?cl2"
      by (rule lookup_put_call [OF l1])
    have lg: "srv_log (put_call ?s1 c' ?cl2) = srv_log s @ [(Debug, ''received screen sharing stream ID'')]"
      by (simp add: put_call_def slog_def split: option.splits)
    show ?thesis
      using step lk lg None
      by (simp add: lookup_session_def getSession_def setScreenSession_def Let_def)
  next
    case (Some holder)
    let ?s2 = "slog Error ''screen session should not be set'' (put_call ?s1 c' ?cl1)"
    have step: "msgReader_step env s msg = (Continue, ?s2)"
      unfolding msgReader_step_found [OF valid idx cl se]
      using kind payload Some
      by (simp add: dispatch_def dispatch_screen_on_def setScreenSession_def Let_def)
    have lk: "lookup_call ?s2 c' = Some ?cl1"
      using lookup_put_call [OF l1, of ?cl1] by simp
    have lg: "srv_log ?s2 = srv_log s @ [(Debug, ''received screen sharing stream ID''),
                                    (Error, ''screen session should not be set'')]"
      by (simp add: put_call_def slog_def split: option.splits)
    show ?thesis
      using step lk lg Some
      by (simp add: lookup_session_def getSession_def setScreenSession_def Let_def)
  qed
qed

theorem screen_on_assigns_before_election_witness:
  "\<exists>s' cl'.
     msgReader_step
       (no_json\<lparr>unmarshal_screen := (\<lambda>_. Some [''screenStreamID'' \<mapsto> ''streamX''])\<rparr>)
       (one_call_server [''s'' \<mapsto> idle_session ''s'', ''other'' \<mapsto> idle_session ''other'']
          (Some ''other''))
       \<lparr>SessionID = ''s'', GroupID = ''g'', CallID = ''c'', Type = ScreenOnMessage,
        Data = ''{}''\<rparr> = (Continue, s') \<and>
     lookup_call s' (cfg (idle_session ''s'')) = Some cl' \<and>
     lookup_session s' (cfg (idle_session ''s'')) =
       Some ((idle_session ''s'')\<lparr>screenStreamID := ''streamX''\<rparr>) \<and>
     screenSession cl' = Some ''other'' \<and>
     srv_log s' = [(Debug, ''received screen sharing stream ID''),
                   (Error, ''screen session should not be set'')]"
proof -
  let ?ss = "[''s'' \<mapsto> idle_session ''s'', ''other'' \<mapsto> idle_session ''other'']"
  let ?s = "one_call_server ?ss (Some ''other'')"
  let ?msg = "\<lparr>SessionID = ''s'', GroupID = ''g'', CallID = ''c'', Type = ScreenOnMessage,
        Data = ''{}''\<rparr>"
  let ?env = "no_json\<lparr>unmarshal_screen := (\<lambda>_. Some [''screenStreamID'' \<mapsto> ''streamX''])\<rparr>"
  let ?cl = "\<lparr>call_id = ''c'', call_sessions = ?ss, screenSession = Some ''other''\<rparr>"
  let ?c = "cfg (idle_session ''s'')"
  have h1: "Message_IsValid ?msg = None" by (simp add: Message_IsValid_def)
  have h2: "sessions ?s (SessionID ?msg) = Some ?c" by (simp add: one_call_server_def)
  have h3: "lookup_call ?s ?c = Some ?cl" by (simp add: pump_eval)
  have h4: "call_sessions ?cl (cfg_SessionID ?c) = Some (idle_session ''s'')"
    by (simp add: idle_session_def)
  have h5: "Type ?msg = ScreenOnMessage" by simp
  have h6: "unmarshal_screen ?env (Data ?msg) = Some [''screenStreamID'' \<mapsto> ''streamX'']"
    by simp
  from screen_on_assigns_before_election [OF h1 h2 h3 h4 h5 h6]
  obtain s' cl' where "msgReader_step ?env ?s ?msg = (Continue, s')"
    "lookup_call s' ?c = Some cl'"
    "lookup_session s' ?c =
       Some ((idle_session ''s'')\<lparr>screenStreamID := map_get [''screenStreamID'' \<mapsto> ''streamX''] ''screenStreamID''\<rparr>)"
    "screenSession cl' = Some ''other''"
    "srv_log s' = srv_log ?s @ [(Debug, ''received screen sharing stream ID''),
                   (Error, ''screen session should not be set'')]"
    by auto
  then show ?thesis
    by (intro exI [of _ s'] exI [of _ cl']) (simp add: map_get_def one_call_server_def)
qed

text \<open>
  Claim C10: when the pump takes a valid SDP message for an existing session whose
  parsed type is neither offer nor answer, \<open>msgReader\<close> returns: it logs an error, the
  message reaches no channel, and the messages delivered after it are never
  processed. No other message makes an iteration end with \<open>return\<close>.
\<close>

theorem unexpected_sdp_type_stops_pump:
  assumes valid: "Message_IsValid msg = None"
    and idx: "sessions s (SessionID msg) = Some c'"
    and cl: "lookup_call s c' = Some cl"
    and se: "call_sessions cl (cfg_SessionID c') = Some se"
    and kind: "Type msg = SDPMessage"
    and sdp: "unmarshal_sdp env (Data msg) = Some sdp"
    and other: "sdp_Type sdp \<noteq> SDPTypeOffer" "sdp_Type sdp \<noteq> SDPTypeAnswer"
  shows "msgReader env s (msg # rest) =
       (Returned,
        s\<lparr>srv_log := srv_log s @ [(Debug, ''signaling''), (Error, ''unexpected sdp type'')]\<rparr>,
        rest) \<and>
     (\<forall>s0 msg0. fst (msgReader_step env s0 msg0) = Return \<longleftrightarrow>
        Message_IsValid msg0 = None \<and> Type msg0 = SDPMessage \<and>
        (\<exists>c0. sessions s0 (SessionID msg0) = Some c0 \<and> lookup_session s0 c0 \<noteq> None) \<and>
        (\<exists>sdp0. unmarshal_sdp env (Data msg0) = Some sdp0 \<and>
           sdp_Type sdp0 \<noteq> SDPTypeOffer \<and> sdp_Type sdp0 \<noteq> SDPTypeAnswer))"
proof -
  have step: "msgReader_step env s msg =
      (Return, s\<lparr>srv_log := srv_log s @ [(Debug, ''signaling''), (Error, ''unexpected sdp type'')]\<rparr>)"
    unfolding msgReader_step_found [OF valid idx cl se]
    using kind sdp other by (simp add: dispatch_def dispatch_sdp_def slog_def Let_def)
  have only: "fst (msgReader_step env s0 msg0) = Return \<longleftrightarrow>
        Message_IsValid msg0 = None \<and> Type msg0 = SDPMessage \<and>
        (\<exists>c0. sessions s0 (SessionID msg0) = Some c0 \<and> lookup_session s0 c0 \<noteq> None) \<and>
        (\<exists>sdp0. unmarshal_sdp env (Data msg0) = Some sdp0 \<and>
           sdp_Type sdp0 \<noteq> SDPTypeOffer \<and> sdp_Type sdp0 \<noteq> SDPTypeAnswer)" for s0 msg0
  proof (cases "Message_IsValid msg0 = None \<and>
        (\<exists>c0. sessions s0 (SessionID msg0) = Some c0 \<and> lookup_session s0 c0 \<noteq> None)")
    case False
    then have "fst (msgReader_step env s0 msg0) = Continue"
      by (intro msgReader_step_not_found) auto
    with False show ?thesis by auto
  next
    case True
    then obtain c0 cl0 se0 where f: "Message_IsValid msg0 = None"
      "sessions s0 (SessionID msg0) = Some c0" "lookup_call s0 c0 = Some cl0"
      "call_sessions cl0 (cfg_SessionID c0) = Some se0"
      by (auto simp: lookup_session_def getSession_def split: option.splits)
    show ?thesis
      unfolding msgReader_step_found [OF f]
      using True
      by (cases "Type msg0")
         (auto simp: dispatch_def dispatch_sdp_def dispatch_screen_on_def dispatch_mute_def
            Let_def split: option.splits send_result.splits prod.splits bool.splits if_splits)
  qed
  from step only show ?thesis by simp
qed

theorem unexpected_sdp_type_stops_pump_witness:
  "msgReader
     (no_json\<lparr>unmarshal_sdp := (\<lambda>_. Some \<lparr>sdp_Type = SDPTypePranswer, sdp_SDP = ''v=0''\<rparr>)\<rparr>)
     (one_call_server [''s'' \<mapsto> idle_session ''s''] None)
     [\<lparr>SessionID = ''s'', GroupID = ''g'', CallID = ''c'', Type = SDPMessage, Data = ''pranswer''\<rparr>,
      \<lparr>SessionID = ''s'', GroupID = ''g'', CallID = ''c'', Type = MuteMessage, Data = []\<rparr>] =
   (Returned,
    (one_call_server [''s'' \<mapsto> idle_session ''s''] None)
      \<lparr>srv_log := [(Debug, ''signaling''), (Error, ''unexpected sdp type'')]\<rparr>,
    [\<lparr>SessionID = ''s'', GroupID = ''g'', CallID = ''c'', Type = MuteMessage, Data = []\<rparr>])"
proof -
  let ?se = "idle_session ''s''"
  let ?s = "one_call_server [''s'' \<mapsto> ?se] None"
  let ?msg = "\<lparr>SessionID = ''s'', GroupID = ''g'', CallID = ''c'', Type = SDPMessage, Data = ''pranswer''\<rparr>"
  let ?sdp = "\<lparr>sdp_Type = SDPTypePranswer, sdp_SDP = ''v=0''\<rparr>"
  let ?env = "no_json\<lparr>unmarshal_sdp := (\<lambda>_. Some ?sdp)\<rparr>"
  let ?cl = "\<lparr>call_id = ''c'', call_sessions = [''s'' \<mapsto> ?se], screenSession = None\<rparr>"
  have h1: "Message_IsValid ?msg = None" by (simp add: Message_IsValid_def)
  have h2: "sessions ?s (SessionID ?msg) = Some (cfg ?se)" by (simp add: one_call_server_def)
  have h3: "lookup_call ?s (cfg ?se) = Some ?cl" by (simp add: pump_eval)
  have h4: "call_sessions ?cl (cfg_SessionID (cfg ?se)) = Some ?se" by (simp add: idle_session_def)
  have h5: "Type ?msg = SDPMessage" by simp
  have h6: "unmarshal_sdp ?env (Data ?msg) = Some ?sdp" by simp
  have h7: "sdp_Type ?sdp \<noteq> SDPTypeOffer" and h8: "sdp_Type ?sdp \<noteq> SDPTypeAnswer" by simp_all
  from unexpected_sdp_type_stops_pump [OF h1 h2 h3 h4 h5 h6 h7 h8]
  show ?thesis by (simp add: one_call_server_def)
qed

end
